theory Spec2Isabelle
  imports Complex_Main "HOL-Library.AList" "HOL-Library.Product_Lexorder"
begin

section \<open>Slider discretisation\<close>

text \<open>
  Python's \<^verbatim>\<open>int(x)\<close> on a float truncates towards zero. The raw slider value is a
  float; dividing and multiplying by \<^verbatim>\<open>0.5\<close> is exact in binary floating point, so
  the arithmetic of \<^verbatim>\<open>int(int(value / 0.5) * 0.5)\<close> (line 531 of
  \<^verbatim>\<open>_multiple_display.py\<close>) is modelled over the rationals.
\<close>

definition py_int :: "rat \<Rightarrow> int" where
  "py_int x = (if 0 \<le> x then \<lfloor>x\<rfloor> else \<lceil>x\<rceil>)"

definition slider_step :: "rat \<Rightarrow> int" where
  "slider_step v = py_int (of_int (py_int (v / (1 / 2))) * (1 / 2))"

section \<open>The order list built by \<^verbatim>\<open>add_slider\<close>\<close>

text \<open>
  \<^verbatim>\<open>dict(pairs)\<close>: a Python dictionary keeps one entry per key, at the position of
  the key's first insertion, holding the value of its last insertion. It is modelled as
  an association list with unique keys; \<^const>\<open>AList.update\<close> replaces in place or
  appends.
\<close>

definition py_dict :: "('k \<times> 'v) list \<Rightarrow> ('k \<times> 'v) list" where
  "py_dict ps = foldl (\<lambda>d (k, v). AList.update k v d) [] ps"

text \<open>
  Lines 514 to 516:
  \<^verbatim>\<open>dic = dict(zip(criterion, range(self.length_data)))\<close>,
  \<^verbatim>\<open>order_dic = collections.OrderedDict(sorted(dic.items()))\<close>, and the list stored is
  \<^verbatim>\<open>order_dic.values()\<close>. \<^verbatim>\<open>sorted\<close> compares the (key, value) tuples
  lexicographically, which is the order of pairs of \<open>Product_Lexorder\<close>; \<^const>\<open>sort\<close>
  is a stable insertion sort.
\<close>

definition slider_order :: "'a::linorder list \<Rightarrow> nat \<Rightarrow> nat list" where
  "slider_order criterion length_data =
     map snd (sort (py_dict (zip criterion [0..<length_data])))"

section \<open>Errors and results\<close>

text \<open>
  Every exception the handlers can raise is a value. \<open>RecursionError\<close> is Python's
  answer to a callback chain deeper than the interpreter allows.
\<close>

datatype error = ValueError | IndexError | AttributeError | RecursionError

type_synonym 'a result = "error + 'a"

definition and_then :: "'a result \<Rightarrow> ('a \<Rightarrow> 'b result) \<Rightarrow> 'b result" where
  "and_then r f = (case r of Inl e \<Rightarrow> Inl e | Inr x \<Rightarrow> f x)"

text \<open>\<^verbatim>\<open>xs.index(x)\<close>: the first position of \<open>x\<close>; \<open>None\<close> stands for the ValueError.\<close>

fun py_index :: "'a list \<Rightarrow> 'a \<Rightarrow> nat option" where
  "py_index [] x = None"
| "py_index (y # ys) x = (if y = x then Some 0 else map_option Suc (py_index ys x))"

text \<open>\<^verbatim>\<open>xs[i]\<close> with an integer \<open>i\<close>; \<open>xs[-1]\<close> is the last element, and \<open>None\<close> stands for the IndexError.\<close>

definition py_get :: "'a list \<Rightarrow> int \<Rightarrow> 'a option" where
  "py_get xs i =
     (if 0 \<le> i \<and> i < int (length xs) then Some (xs ! nat i)
      else if i < 0 \<and> - int (length xs) \<le> i then Some (xs ! nat (int (length xs) + i))
      else None)"

section \<open>Data model\<close>

text \<open>
  An artist is a matplotlib object: it is identified by \<open>art_id\<close>, belongs to the axes
  \<open>art_axes\<close>, and is or is not a \<^verbatim>\<open>PathCollection\<close>. Its opacity is mutable state and
  lives in the store \<open>alpha\<close> of the coordinator's state below. Axes are identified by
  natural numbers.
\<close>

record artist =
  art_id :: nat
  art_axes :: nat
  art_is_path :: bool

text \<open>
  A \<^verbatim>\<open>BasePlot\<close>: its axes, the grid \<^verbatim>\<open>artists[sample][sub_axis]\<close> (a list of rows), and
  what \<^verbatim>\<open>n_samples()\<close> answers.
\<close>

record display =
  d_axes :: "nat list"
  d_artists :: "artist list list"
  d_n_samples :: nat

text \<open>
  A slider widget. \<open>Default_label k\<close> is the description \<^verbatim>\<open>"Filter (k)"\<close>;
  \<open>Formatted v\<close> is the text the widget itself writes for the value \<open>v\<close>, \<open>Step_text i\<close>
  the text \<^verbatim>\<open>f'{index}'\<close> written by \<^verbatim>\<open>value_updated\<close>.
\<close>

datatype label = Default_label nat | Given_label string

datatype valtext = Formatted rat | Step_text int

record slider =
  sl_ax :: nat
  sl_label :: label
  sl_valmin :: int
  sl_valmax :: int
  sl_val :: rat
  sl_valtext :: valtext

text \<open>
  The state of a \<^verbatim>\<open>MultipleDisplay\<close>, with the attribute names of the class.
  \<open>widget_index\<close> is \<open>None\<close> while the attribute does not exist. The annotation
  \<^verbatim>\<open>_tag\<close> is kept as its visibility and its anchor (axes and sample number); its
  coordinates and pixel offsets are left to the renderer.
\<close>

record multiple_display =
  displays :: "display list"
  point_clicked :: "artist option"
  n_graphs :: nat
  length_data :: nat
  sliders :: "slider list"
  criteria :: "nat list list"
  clicked :: bool
  index_clicked :: int
  tag_visible :: bool
  tag_anchor :: "(nat \<times> nat) option"
  is_updating :: bool
  axes :: "nat list"
  widget_index :: "nat option"
  alpha :: "nat \<Rightarrow> rat"

type_synonym callback = "rat \<Rightarrow> multiple_display \<Rightarrow> multiple_display result"

section \<open>Opacity changes\<close>

definition set_alpha :: "rat \<Rightarrow> artist \<Rightarrow> multiple_display \<Rightarrow> multiple_display" where
  "set_alpha v a s = s\<lparr>alpha := (alpha s)(art_id a := v)\<rparr>"

text \<open>
  The inner loops of \<^verbatim>\<open>reduce_points_intensity\<close> and \<^verbatim>\<open>restore_points_intensity\<close>:
  \<^verbatim>\<open>for d in self.displays: for artist in np.ravel(d.artists[i]): artist.set_alpha(v)\<close>.
  Row \<open>i\<close> of a grid with fewer rows is an IndexError.
\<close>

fun sample_set_alpha ::
  "nat \<Rightarrow> rat \<Rightarrow> display list \<Rightarrow> multiple_display \<Rightarrow> multiple_display result" where
  "sample_set_alpha i v [] s = Inr s"
| "sample_set_alpha i v (d # ds) s =
     (if i < length (d_artists d)
      then sample_set_alpha i v ds (fold (set_alpha v) (d_artists d ! i) s)
      else Inl IndexError)"

text \<open>\<^verbatim>\<open>change_display_intensity\<close>: the same loop, skipping a display whose grid is empty.\<close>

fun change_display_loop ::
  "nat \<Rightarrow> rat \<Rightarrow> display list \<Rightarrow> multiple_display \<Rightarrow> multiple_display result" where
  "change_display_loop index intensity [] s = Inr s"
| "change_display_loop index intensity (d # ds) s =
     (if length (d_artists d) \<noteq> 0
      then (if index < length (d_artists d)
            then change_display_loop index intensity ds
                   (fold (set_alpha intensity) (d_artists d ! index) s)
            else Inl IndexError)
      else change_display_loop index intensity ds s)"

definition change_display_intensity ::
  "nat \<Rightarrow> rat \<Rightarrow> multiple_display \<Rightarrow> multiple_display result" where
  "change_display_intensity index intensity s =
     change_display_loop index intensity (displays s) s"

section \<open>Sliders\<close>

text \<open>
  \<^verbatim>\<open>Slider.set_val\<close> stores the value, rewrites the value text and notifies the observers
  registered with \<^verbatim>\<open>on_changed\<close>. After \<^verbatim>\<open>plot()\<close> the observer of every slider is
  \<^verbatim>\<open>value_updated\<close>; it is the parameter \<open>on_changed\<close> of every function that moves a
  slider.
\<close>

definition set_val :: "callback \<Rightarrow> nat \<Rightarrow> rat \<Rightarrow> multiple_display \<Rightarrow> multiple_display result" where
  "set_val on_changed j v s =
     on_changed v
       (s\<lparr>sliders := (sliders s)[j := (sliders s ! j)\<lparr>sl_val := v, sl_valtext := Formatted v\<rparr>]\<rparr>)"

text \<open>
  The loop \<^verbatim>\<open>for criterium, slider in zip(self.criteria, self.sliders)\<close> of
  \<^verbatim>\<open>reduce_points_intensity\<close> and \<^verbatim>\<open>change_points_intensity\<close>, over the positions
  \<open>js\<close> still to visit:
  \<^verbatim>\<open>slider.set_val(list(criterium).index(self.index_clicked))\<close>.
\<close>

fun push_selection :: "callback \<Rightarrow> nat list \<Rightarrow> multiple_display \<Rightarrow> multiple_display result" where
  "push_selection on_changed [] s = Inr s"
| "push_selection on_changed (j # js) s =
     (case py_index (map int (criteria s ! j)) (index_clicked s) of
        None \<Rightarrow> Inl ValueError
      | Some p \<Rightarrow> and_then (set_val on_changed j (of_nat p) s) (push_selection on_changed js))"

definition zip_range :: "multiple_display \<Rightarrow> nat list" where
  "zip_range s = [0..<min (length (criteria s)) (length (sliders s))]"

text \<open>The loop of \<^verbatim>\<open>restore_points_intensity\<close>: \<^verbatim>\<open>self.sliders[j].set_val(0)\<close>.\<close>

fun reset_sliders :: "callback \<Rightarrow> nat list \<Rightarrow> multiple_display \<Rightarrow> multiple_display result" where
  "reset_sliders on_changed [] s = Inr s"
| "reset_sliders on_changed (j # js) s =
     and_then (set_val on_changed j 0 s) (reset_sliders on_changed js)"

section \<open>Resolving the picked sample\<close>

text \<open>
  Column \<open>i\<close> of the grid, \<^verbatim>\<open>d.artists[:, i]\<close>; \<open>None\<close> stands for the IndexError of a
  grid that has no such column.
\<close>

definition column :: "nat \<Rightarrow> 'a list list \<Rightarrow> 'a list option" where
  "column i grid =
     (if list_all (\<lambda>row. i < length row) grid then Some (map (\<lambda>row. row ! i) grid) else None)"

text \<open>
  \<^verbatim>\<open>np.where(d.artists == a)[0][0]\<close>: the first row holding \<open>a\<close>; \<open>None\<close> stands for the
  IndexError raised when no row does.
\<close>

fun where_row :: "'a list list \<Rightarrow> 'a \<Rightarrow> nat option" where
  "where_row [] a = None"
| "where_row (row # rows) a =
     (if a \<in> set row then Some 0 else map_option Suc (where_row rows a))"

text \<open>
  \<^verbatim>\<open>update_index_display_picked\<close>: the first display, and in it the first axes, equal to
  the axes of the clicked artist decides; when no display has these axes the index is
  left as it is.
\<close>

fun update_index_loop ::
  "display list \<Rightarrow> artist \<Rightarrow> multiple_display \<Rightarrow> multiple_display result" where
  "update_index_loop [] pc s = Inr s"
| "update_index_loop (d # ds) pc s =
     (case py_index (d_axes d) (art_axes pc) of
        None \<Rightarrow> update_index_loop ds pc s
      | Some i \<Rightarrow>
          (if length (d_axes d) = 1
           then (case where_row (d_artists d) pc of
                   None \<Rightarrow> Inl IndexError
                 | Some j \<Rightarrow> Inr (s\<lparr>index_clicked := int j\<rparr>))
           else (case column i (d_artists d) of
                   None \<Rightarrow> Inl IndexError
                 | Some col \<Rightarrow>
                     (case py_index col pc of
                        None \<Rightarrow> Inl IndexError
                      | Some j \<Rightarrow> Inr (s\<lparr>index_clicked := int j\<rparr>)))))"

definition update_index_display_picked :: "multiple_display \<Rightarrow> multiple_display result" where
  "update_index_display_picked s =
     (case point_clicked s of
        None \<Rightarrow> Inl AttributeError
      | Some pc \<Rightarrow> update_index_loop (displays s) pc s)"

section \<open>Intensity fan-out\<close>

text \<open>The outer loop of \<^verbatim>\<open>reduce_points_intensity\<close> over \<^verbatim>\<open>range(self.length_data)\<close>.\<close>

fun reduce_loop :: "nat list \<Rightarrow> multiple_display \<Rightarrow> multiple_display result" where
  "reduce_loop [] s = Inr s"
| "reduce_loop (i # is) s =
     (if int i \<noteq> index_clicked s
      then and_then (sample_set_alpha i (1 / 10) (displays s) s) (reduce_loop is)
      else reduce_loop is s)"

definition reduce_points_intensity :: "callback \<Rightarrow> multiple_display \<Rightarrow> multiple_display result" where
  "reduce_points_intensity on_changed s =
     and_then (reduce_loop [0..<length_data s] s) (\<lambda>s1.
     and_then (push_selection on_changed (zip_range s1) (s1\<lparr>is_updating := True\<rparr>)) (\<lambda>s2.
     Inr (s2\<lparr>is_updating := False\<rparr>)))"

fun restore_loop :: "nat list \<Rightarrow> multiple_display \<Rightarrow> multiple_display result" where
  "restore_loop [] s = Inr s"
| "restore_loop (i # is) s =
     and_then (sample_set_alpha i 1 (displays s) s) (restore_loop is)"

definition restore_points_intensity :: "callback \<Rightarrow> multiple_display \<Rightarrow> multiple_display result" where
  "restore_points_intensity on_changed s =
     and_then (restore_loop [0..<length_data s] s) (\<lambda>s1.
     and_then (reset_sliders on_changed [0..<length (sliders s1)]
                 (s1\<lparr>point_clicked := None, index_clicked := - 1, is_updating := True\<rparr>)) (\<lambda>s2.
     Inr (s2\<lparr>is_updating := False\<rparr>)))"

text \<open>
  The loop of \<^verbatim>\<open>change_points_intensity\<close>: intensity 1.0 for the selected sample, 0.1 for
  \<open>old_index\<close>, and no call for any other sample.
\<close>

fun change_loop :: "int \<Rightarrow> nat list \<Rightarrow> multiple_display \<Rightarrow> multiple_display result" where
  "change_loop old_index [] s = Inr s"
| "change_loop old_index (i # is) s =
     (if int i = index_clicked s
      then and_then (change_display_intensity i 1 s) (change_loop old_index is)
      else if int i = old_index
      then and_then (change_display_intensity i (1 / 10) s) (change_loop old_index is)
      else change_loop old_index is s)"

text \<open>\<open>old_index = None\<close> is the default argument of the method.\<close>

definition change_points_intensity ::
  "callback \<Rightarrow> int option \<Rightarrow> multiple_display \<Rightarrow> multiple_display result" where
  "change_points_intensity on_changed old_index s =
     and_then
       (case old_index of
          None \<Rightarrow> and_then (update_index_display_picked s) (\<lambda>s'. Inr (index_clicked s, s'))
        | Some oi \<Rightarrow> Inr (oi, s))
       (\<lambda>(oi, s1).
          if index_clicked s1 = oi then restore_points_intensity on_changed s1
          else
            and_then (change_loop oi [0..<length_data s1] s1) (\<lambda>s2.
            and_then (push_selection on_changed (zip_range s2) (s2\<lparr>is_updating := True\<rparr>)) (\<lambda>s3.
            Inr (s3\<lparr>is_updating := False\<rparr>))))"

section \<open>Event handlers\<close>

text \<open>\<^verbatim>\<open>pick(event)\<close>, with \<open>a\<close> the artist \<^verbatim>\<open>event.artist\<close>.\<close>

definition pick :: "callback \<Rightarrow> artist \<Rightarrow> multiple_display \<Rightarrow> multiple_display result" where
  "pick on_changed a s =
     (if clicked s
      then and_then (change_points_intensity on_changed None (s\<lparr>point_clicked := Some a\<rparr>))
             (\<lambda>s'. Inr (s'\<lparr>clicked := False\<rparr>))
      else if point_clicked s = None
      then and_then (update_index_display_picked (s\<lparr>point_clicked := Some a\<rparr>))
             (reduce_points_intensity on_changed)
      else if point_clicked s = Some a
      then restore_points_intensity on_changed s
      else change_points_intensity on_changed None (s\<lparr>point_clicked := Some a\<rparr>))"

text \<open>
  The loop of \<^verbatim>\<open>value_updated\<close> over \<^verbatim>\<open>enumerate(zip(self.criteria, self.sliders))\<close>,
  which skips the slider \<open>w\<close> that was moved.
\<close>

fun push_others ::
  "callback \<Rightarrow> nat \<Rightarrow> nat list \<Rightarrow> multiple_display \<Rightarrow> multiple_display result" where
  "push_others on_changed w [] s = Inr s"
| "push_others on_changed w (i # is) s =
     (if i \<noteq> w
      then (case py_index (map int (criteria s ! i)) (index_clicked s) of
              None \<Rightarrow> Inl ValueError
            | Some p \<Rightarrow>
                and_then (set_val on_changed i (of_nat p) s) (push_others on_changed w is))
      else push_others on_changed w is s)"

text \<open>
  The body of \<^verbatim>\<open>value_updated(value)\<close>; \<open>on_changed\<close> is what a slider moved by this
  body calls back.
\<close>

definition value_updated_body :: "callback \<Rightarrow> rat \<Rightarrow> multiple_display \<Rightarrow> multiple_display result" where
  "value_updated_body on_changed v s =
     (if is_updating s then Inr s
      else
        let s1 = s\<lparr>is_updating := True\<rparr>;
            index = slider_step v;
            old_index = index_clicked s1
        in case widget_index s1 of
             None \<Rightarrow> Inl AttributeError
           | Some w \<Rightarrow>
               if length (criteria s1) \<le> w then Inl IndexError
               else case py_get (criteria s1 ! w) index of
                 None \<Rightarrow> Inl IndexError
               | Some k \<Rightarrow>
                   let s2 = s1\<lparr>index_clicked := int k\<rparr> in
                   if length (sliders s2) \<le> w then Inl IndexError
                   else
                     let s3 = s2\<lparr>sliders :=
                                (sliders s2)[w := (sliders s2 ! w)\<lparr>sl_valtext := Step_text index\<rparr>]\<rparr>
                     in and_then (push_others on_changed w (zip_range s3) s3) (\<lambda>s4.
                        let s5 = s4\<lparr>is_updating := False, clicked := True\<rparr> in
                        if old_index = - 1 then reduce_points_intensity on_changed s5
                        else change_points_intensity on_changed (Some old_index)
                               (if index_clicked s5 = old_index
                                then s5\<lparr>clicked := False\<rparr> else s5)))"

text \<open>
  \<^verbatim>\<open>value_updated\<close> is its own observer: a slider it moves calls it again. \<open>depth\<close> is
  the number of nested calls the interpreter still allows.
\<close>

primrec value_updated :: "nat \<Rightarrow> rat \<Rightarrow> multiple_display \<Rightarrow> multiple_display result" where
  "value_updated 0 v s = Inl RecursionError"
| "value_updated (Suc depth) v s = value_updated_body (value_updated depth) v s"

text \<open>
  A pointer-move event: the axes under the pointer, if any, and the answer of
  \<^verbatim>\<open>artist.contains(event)[0]\<close> for every artist.
\<close>

record mouse_event =
  inaxes :: "nat option"
  contains :: "artist \<Rightarrow> bool"

text \<open>The scan of one column in \<^verbatim>\<open>_sample_artist_from_event\<close>; the outer \<open>None\<close> is "no hit in this column, go on".\<close>

fun scan_column :: "mouse_event \<Rightarrow> nat \<Rightarrow> artist list \<Rightarrow> (nat \<times> artist) option option" where
  "scan_column ev j [] = None"
| "scan_column ev j (a # as) =
     (if \<not> art_is_path a then Some None
      else if contains ev a then Some (Some (j, a))
      else scan_column ev (Suc j) as)"

fun sample_artist_loop ::
  "display list \<Rightarrow> mouse_event \<Rightarrow> (nat \<times> artist) option result" where
  "sample_artist_loop [] ev = Inr None"
| "sample_artist_loop (d # ds) ev =
     (case (case inaxes ev of None \<Rightarrow> None | Some ax \<Rightarrow> py_index (d_axes d) ax) of
        None \<Rightarrow> sample_artist_loop ds ev
      | Some i \<Rightarrow>
          (case column i (d_artists d) of
             None \<Rightarrow> Inl IndexError
           | Some col \<Rightarrow>
               (case scan_column ev 0 col of
                  None \<Rightarrow> sample_artist_loop ds ev
                | Some found \<Rightarrow> Inr found)))"

definition sample_artist_from_event ::
  "multiple_display \<Rightarrow> mouse_event \<Rightarrow> (nat \<times> artist) option result" where
  "sample_artist_from_event s ev = sample_artist_loop (displays s) ev"

text \<open>
  The loop of \<^verbatim>\<open>hover\<close> over \<^verbatim>\<open>range(self._n_graphs, len(self.axes))\<close>, the only place
  that assigns \<^verbatim>\<open>self.widget_index\<close>.
\<close>

fun widget_loop :: "nat list \<Rightarrow> mouse_event \<Rightarrow> multiple_display \<Rightarrow> multiple_display" where
  "widget_loop [] ev s = s"
| "widget_loop (k # ks) ev s =
     widget_loop ks ev
       (if inaxes ev = Some (axes s ! k) then s\<lparr>widget_index := Some (k - n_graphs s)\<rparr> else s)"

definition hover :: "mouse_event \<Rightarrow> multiple_display \<Rightarrow> multiple_display result" where
  "hover ev s =
     and_then (sample_artist_from_event s ev) (\<lambda>found_artist.
       let s1 = widget_loop [n_graphs s..<length (axes s)] ev s in
       case (inaxes ev, found_artist) of
         (Some ax, Some (sample_number, a)) \<Rightarrow>
           Inr (s1\<lparr>tag_anchor := Some (ax, sample_number), tag_visible := True\<rparr>)
       | _ \<Rightarrow> if tag_visible s1 then Inr (s1\<lparr>tag_visible := False\<rparr>) else Inr s1)"

section \<open>Construction\<close>

text \<open>
  What construction does to the drawing surface is recorded as a log of effects, in the
  order of the calls in the source. Creating the unattached \<^verbatim>\<open>Annotation\<close> object is
  not an effect on the surface and is not logged.
\<close>

datatype widget_func = Slider | Widget_class nat

datatype effect =
    Create_figure
  | Set_figure_layout nat
  | Set_visible_False nat
  | Set_box_aspect nat
  | Build_widget widget_func nat
  | Annotate nat

type_synonym 'a traced = "effect list \<times> 'a result"

definition then_traced :: "'a traced \<Rightarrow> ('a \<Rightarrow> 'b traced) \<Rightarrow> 'b traced" where
  "then_traced r f =
     (case r of
        (tr, Inl e) \<Rightarrow> (tr, Inl e)
      | (tr, Inr x) \<Rightarrow> (case f x of (tr', y) \<Rightarrow> (tr @ tr', y)))"

text \<open>Arguments that the constructor accepts either alone or as a sequence.\<close>

datatype 'a one_or_many = One 'a | Many "'a list"

fun as_list :: "'a one_or_many \<Rightarrow> 'a list" where
  "as_list (One x) = [x]"
| "as_list (Many xs) = xs"

text \<open>
  \<^verbatim>\<open>criteria\<close> is one criterion or a sequence of criteria; line 78 wraps it when it is
  not empty and its first element is not a sequence.
\<close>

datatype 'a criteria_arg = Flat "'a list" | Nested "'a list list"

fun criteria_list :: "'a criteria_arg \<Rightarrow> 'a list list" where
  "criteria_list (Flat c) = (if length c \<noteq> 0 then [c] else [])"
| "criteria_list (Nested cs) = cs"

datatype label_arg = No_labels | One_label string | Labels "string list"

fun label_list :: "label_arg \<Rightarrow> string list option" where
  "label_list No_labels = None"
| "label_list (One_label l) = Some [l]"
| "label_list (Labels ls) = Some ls"

text \<open>
  The arguments \<^verbatim>\<open>chart\<close>, \<^verbatim>\<open>fig\<close> and \<^verbatim>\<open>axes\<close>: nothing, a figure with the axes it
  holds, or a set of axes.
\<close>

datatype chart_arg = No_chart | Given_figure "nat list" | Given_axes "nat list"

text \<open>
  Modelled from the spec: \<^verbatim>\<open>_get_figure_and_axes\<close> of \<^verbatim>\<open>_utils\<close>, which is not among
  the sources. The constructor takes "an optional pre-existing drawing-surface/axis set",
  and by the docstring of \<^verbatim>\<open>_init_axes\<close> "if None and ax is also None, the figure is
  initialized": a figure is created only when nothing is supplied, and then it has no
  axes yet.
\<close>

fun get_figure_and_axes :: "chart_arg \<Rightarrow> effect list \<times> nat list" where
  "get_figure_and_axes No_chart = ([Create_figure], [])"
| "get_figure_and_axes (Given_figure axs) = ([], axs)"
| "get_figure_and_axes (Given_axes axs) = ([], axs)"

text \<open>
  The two other helpers of \<^verbatim>\<open>_utils\<close> are parameters: \<^verbatim>\<open>_get_axes_shape\<close> gives the
  rows and columns of the grid for a number of axes, \<^verbatim>\<open>_set_figure_layout\<close> the axes of
  the figure once laid out.
\<close>

record backend =
  get_axes_shape :: "nat \<Rightarrow> nat \<times> nat"
  set_figure_layout :: "nat list \<Rightarrow> nat \<Rightarrow> nat list"

text \<open>The loop of \<^verbatim>\<open>_init_axes\<close> over \<^verbatim>\<open>range(self._n_graphs, number_axes)\<close>.\<close>

fun init_axes_loop :: "nat list \<Rightarrow> nat \<Rightarrow> nat list \<Rightarrow> unit traced" where
  "init_axes_loop axs used [] = ([], Inr ())"
| "init_axes_loop axs used (i # is) =
     (if length axs \<le> i then ([], Inl IndexError)
      else then_traced
             ((if i \<ge> used then [Set_visible_False (axs ! i)] else [Set_box_aspect (axs ! i)]),
              Inr ())
             (\<lambda>_. init_axes_loop axs used is))"

definition init_axes ::
  "backend \<Rightarrow> chart_arg \<Rightarrow> nat \<Rightarrow> multiple_display \<Rightarrow> multiple_display traced" where
  "init_axes b chart extra s =
     (case get_figure_and_axes chart of
        (tr, axs) \<Rightarrow>
          if length axs \<notin> {0, n_graphs s + extra} then (tr, Inl ValueError)
          else
            let (n_rows, n_cols) = get_axes_shape b (n_graphs s + extra);
                number_axes = n_rows * n_cols;
                axs' = set_figure_layout b axs (n_graphs s + extra)
            in then_traced (tr @ [Set_figure_layout (n_graphs s + extra)], Inr ()) (\<lambda>_.
               then_traced
                 (init_axes_loop axs' (n_graphs s + extra) [n_graphs s..<number_axes]) (\<lambda>_.
               ([], Inr (s\<lparr>axes := axs'\<rparr>)))))"

definition add_slider ::
  "nat \<Rightarrow> 'a::linorder list \<Rightarrow> widget_func \<Rightarrow> string option \<Rightarrow> multiple_display
   \<Rightarrow> multiple_display traced" where
  "add_slider ind_ax criterion widget label_slider s =
     (let full_desc = (case label_slider of
                         None \<Rightarrow> Default_label ind_ax
                       | Some l \<Rightarrow> Given_label l)
      in if length (axes s) \<le> n_graphs s + ind_ax then ([], Inl IndexError)
         else
           let ax = axes s ! (n_graphs s + ind_ax) in
           ([Build_widget widget ax, Annotate ax, Annotate ax],
            Inr (s\<lparr>sliders := sliders s @
                      [\<lparr>sl_ax = ax, sl_label = full_desc, sl_valmin = 0,
                        sl_valmax = int (length_data s) - 1, sl_val = 0,
                        sl_valtext = Formatted 0\<rparr>],
                    criteria := criteria s @ [slider_order criterion (length_data s)]\<rparr>)))"

text \<open>The second loop of \<^verbatim>\<open>_create_sliders\<close>, over \<^verbatim>\<open>enumerate(criteria)\<close>.\<close>

fun create_sliders_loop ::
  "nat \<Rightarrow> 'a::linorder list list \<Rightarrow> widget_func list \<Rightarrow> string list option
   \<Rightarrow> multiple_display \<Rightarrow> multiple_display traced" where
  "create_sliders_loop k [] ws ls s = ([], Inr s)"
| "create_sliders_loop k (criterium # cs) ws ls s =
     (case (case ls of
              None \<Rightarrow> Inr None
            | Some l \<Rightarrow> if l = [] then Inr None
                        else if k < length l then Inr (Some (l ! k)) else Inl IndexError) of
        Inl e \<Rightarrow> ([], Inl e)
      | Inr label \<Rightarrow>
          if length ws \<le> k then ([], Inl IndexError)
          else then_traced (add_slider k criterium (ws ! k) label s)
                 (create_sliders_loop (Suc k) cs ws ls))"

definition create_sliders ::
  "'a::linorder list list \<Rightarrow> widget_func list \<Rightarrow> string list option
   \<Rightarrow> multiple_display \<Rightarrow> multiple_display traced" where
  "create_sliders cs ws ls s =
     (if list_ex (\<lambda>c. length c \<noteq> length_data s) cs then ([], Inl ValueError)
      else create_sliders_loop 0 cs ws ls s)"

text \<open>
  \<^verbatim>\<open>MultipleDisplay.__init__\<close>. \<open>opacity\<close> is the opacity the artists of the displays
  have when the coordinator is built. A new \<^verbatim>\<open>Annotation\<close> is visible, as every new
  artist is, until \<^verbatim>\<open>plot()\<close> hides it.
\<close>

definition init ::
  "backend \<Rightarrow> (nat \<Rightarrow> rat) \<Rightarrow> display one_or_many \<Rightarrow> 'a::linorder criteria_arg
   \<Rightarrow> widget_func one_or_many \<Rightarrow> label_arg \<Rightarrow> chart_arg \<Rightarrow> multiple_display traced" where
  "init b opacity displays_arg criteria_arg sliders_arg label_sliders chart =
     (let ds = as_list displays_arg in
      if ds = [] then ([], Inl IndexError)
      else
        let s = \<lparr>displays = ds, point_clicked = None,
                 n_graphs = sum_list (map (\<lambda>d. length (d_axes d)) ds),
                 length_data = d_n_samples (ds ! 0),
                 sliders = [], criteria = [], clicked = False, index_clicked = - 1,
                 tag_visible = True, tag_anchor = None, is_updating = False,
                 axes = [], widget_index = None, alpha = opacity\<rparr>;
            cs = criteria_list criteria_arg;
            ws = as_list sliders_arg;
            ls = label_list label_sliders
        in if length cs \<noteq> length ws then ([], Inl ValueError)
           else then_traced (init_axes b chart (length cs) s)
                  (create_sliders cs ws ls))"

text \<open>
  \<^verbatim>\<open>plot()\<close>, as far as the coordinator's state goes: the size check of lines 262 to 267;
  then every display is given its slice of the coordinator's axes
  (\<^verbatim>\<open>self.axes[int_index:end_index]\<close>) and draws itself, which yields its grid of
  artists (\<open>draw\<close>, the displays' own \<^verbatim>\<open>plot\<close>); the handlers are connected and the
  annotation is hidden.
\<close>

fun plot_loop ::
  "(display \<Rightarrow> artist list list) \<Rightarrow> nat \<Rightarrow> nat list \<Rightarrow> display list \<Rightarrow> display list" where
  "plot_loop draw int_index axs [] = []"
| "plot_loop draw int_index axs (d # ds) =
     (let axes_needed = length (d_axes d);
          end_index = axes_needed + int_index;
          d' = d\<lparr>d_axes := take (end_index - int_index) (drop int_index axs)\<rparr>
      in d'\<lparr>d_artists := draw d'\<rparr> # plot_loop draw end_index axs ds)"

definition plot ::
  "(display \<Rightarrow> artist list list) \<Rightarrow> multiple_display \<Rightarrow> multiple_display result" where
  "plot draw s =
     (if n_graphs s > 1 \<and> list_ex (\<lambda>d. d_n_samples d \<noteq> length_data s) (tl (displays s))
      then Inl ValueError
      else Inr (s\<lparr>displays := plot_loop draw 0 (axes s) (displays s),
                  tag_visible := False\<rparr>))"

section \<open>Event dispatch\<close>

text \<open>
  The host event loop runs one handler to completion before it dispatches the next
  event. \<open>depth\<close> is the nesting the interpreter allows to the slider callbacks a
  handler sets off.
\<close>

datatype event = Pointer_move mouse_event | Pick_artist artist | Slider_changed rat

fun dispatch :: "nat \<Rightarrow> event \<Rightarrow> multiple_display \<Rightarrow> multiple_display result" where
  "dispatch depth (Pointer_move ev) s = hover ev s"
| "dispatch depth (Pick_artist a) s = pick (value_updated depth) a s"
| "dispatch depth (Slider_changed v) s = value_updated (Suc depth) v s"

fun run :: "nat \<Rightarrow> event list \<Rightarrow> multiple_display \<Rightarrow> multiple_display result" where
  "run depth [] s = Inr s"
| "run depth (e # es) s = and_then (dispatch depth e s) (run depth es)"

section \<open>Predicates used in the statements\<close>

text \<open>Every slider paired with an order stands at a position of the selected sample.\<close>

definition sliders_synced :: "multiple_display \<Rightarrow> bool" where
  "sliders_synced s =
     list_all
       (\<lambda>(c, sl). list_ex (\<lambda>p. sl_val sl = of_nat p \<and> int (c ! p) = index_clicked s) [0..<length c])
       (zip (criteria s) (sliders s))"


text \<open>
  The artists of sample \<open>k\<close> in every display, the rows \<^verbatim>\<open>d.artists[k]\<close>; an index
  outside \<^verbatim>\<open>range(self.length_data)\<close>, such as \<open>-1\<close> for "no selection", has none.
\<close>

definition sample_artists :: "multiple_display \<Rightarrow> int \<Rightarrow> artist list" where
  "sample_artists s k =
     (if 0 \<le> k \<and> k < int (length_data s)
      then concat (map (\<lambda>d. d_artists d ! nat k) (displays s)) else [])"

definition all_artists :: "multiple_display \<Rightarrow> artist list" where
  "all_artists s = concat (concat (map d_artists (displays s)))"

text \<open>\<open>paint ids v\<close> gives the opacity \<open>v\<close> to the artists \<open>ids\<close> and leaves the others.\<close>

definition paint :: "nat set \<Rightarrow> rat \<Rightarrow> multiple_display \<Rightarrow> multiple_display" where
  "paint ids v s = s\<lparr>alpha := (\<lambda>x. if x \<in> ids then v else alpha s x)\<rparr>"

definition row_ids :: "display list \<Rightarrow> nat \<Rightarrow> nat set" where
  "row_ids ds i = art_id ` (\<Union>d\<in>set ds. set (d_artists d ! i))"

text \<open>
  The state \<^verbatim>\<open>plot()\<close> leaves when the displays agree on the number of samples: every
  grid has one row per sample (\<open>rows_complete\<close>), every row has one artist per axes of
  its display, sitting on that axes (\<open>columns_match\<close>), no axes belongs to two displays
  and no artist occurs twice in a grid.
\<close>

definition rows_complete :: "multiple_display \<Rightarrow> bool" where
  "rows_complete s = list_all (\<lambda>d. length (d_artists d) = length_data s) (displays s)"

definition columns_match :: "multiple_display \<Rightarrow> bool" where
  "columns_match s =
     list_all (\<lambda>d. list_all (\<lambda>row. map art_axes row = d_axes d) (d_artists d)) (displays s)"

definition axes_distinct :: "multiple_display \<Rightarrow> bool" where
  "axes_distinct s = distinct (concat (map d_axes (displays s)))"

definition artists_distinct :: "multiple_display \<Rightarrow> bool" where
  "artists_distinct s = list_all (\<lambda>d. distinct (concat (d_artists d))) (displays s)"

text \<open>
  The invariant of a slider binding: every sample index occurs in the order of every
  slider.
\<close>

definition orders_complete :: "multiple_display \<Rightarrow> bool" where
  "orders_complete s =
     list_all (\<lambda>c. list_all (\<lambda>i. i \<in> set c) [0..<length_data s]) (criteria s)"

text \<open>The fields that no handler but \<^verbatim>\<open>hover\<close> writes are the same in both states.\<close>

definition same_setup :: "multiple_display \<Rightarrow> multiple_display \<Rightarrow> bool" where
  "same_setup s s' =
     (displays s' = displays s \<and> n_graphs s' = n_graphs s \<and> length_data s' = length_data s \<and>
      criteria s' = criteria s \<and> axes s' = axes s \<and> widget_index s' = widget_index s \<and>
      tag_visible s' = tag_visible s \<and> tag_anchor s' = tag_anchor s \<and>
      length (sliders s') = length (sliders s))"

section \<open>Predicates on the effects of construction\<close>

text \<open>The effects of \<^verbatim>\<open>add_slider\<close>: building the widget and labelling its axes.\<close>

fun is_widget_effect :: "effect \<Rightarrow> bool" where
  "is_widget_effect (Build_widget w ax) = True"
| "is_widget_effect (Annotate ax) = True"
| "is_widget_effect _ = False"

text \<open>The number of axes the views need, \<^verbatim>\<open>self._n_graphs\<close>.\<close>

definition view_axes :: "display one_or_many \<Rightarrow> nat" where
  "view_axes displays_arg = sum_list (map (\<lambda>d. length (d_axes d)) (as_list displays_arg))"

text \<open>The axes the caller supplied, empty when there are none.\<close>

definition supplied_axes :: "chart_arg \<Rightarrow> nat list" where
  "supplied_axes chart = snd (get_figure_and_axes chart)"

text \<open>The layout holds at least the cells of the grid it was asked for.\<close>

definition layout_fits :: "backend \<Rightarrow> nat list \<Rightarrow> nat \<Rightarrow> bool" where
  "layout_fits b axs n =
     (fst (get_axes_shape b n) * snd (get_axes_shape b n) \<le> length (set_figure_layout b axs n))"

text \<open>
  What a completed \<^verbatim>\<open>_init_axes\<close> has done to the drawing surface: the figure obtained
  (created when nothing was supplied) and laid out, then every slider slot given its box
  aspect, then every surplus cell of the grid hidden.
\<close>

definition layout_effects :: "backend \<Rightarrow> chart_arg \<Rightarrow> nat \<Rightarrow> nat \<Rightarrow> effect list" where
  "layout_effects b chart graphs extra =
     (let axs = set_figure_layout b (supplied_axes chart) (graphs + extra);
          cells = fst (get_axes_shape b (graphs + extra)) * snd (get_axes_shape b (graphs + extra))
      in fst (get_figure_and_axes chart) @ [Set_figure_layout (graphs + extra)] @
         map (\<lambda>i. Set_box_aspect (axs ! i)) [graphs..<min cells (graphs + extra)] @
         map (\<lambda>i. Set_visible_False (axs ! i)) [graphs + extra..<cells])"

text \<open>A grid of two rows, with the axes of the figure numbered from 0.\<close>

definition two_row_backend :: backend where
  "two_row_backend =
     \<lparr>get_axes_shape = (\<lambda>n. (2, (n + 1) div 2)),
      set_figure_layout = (\<lambda>axs n. [0..<2 * ((n + 1) div 2)])\<rparr>"

section \<open>The scenario of the specification\<close>

text \<open>
  One view of three samples on one axes and one slider with the criterion \<open>[5, 1, 9]\<close>.
  The grid of the figure has one row; its axes are numbered from 0.
\<close>

definition scenario_backend :: backend where
  "scenario_backend =
     \<lparr>get_axes_shape = (\<lambda>n. (1, n)),
      set_figure_layout = (\<lambda>axs n. if axs = [] then [0..<n] else axs)\<rparr>"

definition scenario_view :: display where
  "scenario_view = \<lparr>d_axes = [10], d_artists = [], d_n_samples = 3\<rparr>"

definition scenario_draw :: "display \<Rightarrow> artist list list" where
  "scenario_draw d =
     map (\<lambda>j. map (\<lambda>ax. \<lparr>art_id = j, art_axes = ax, art_is_path = True\<rparr>) (d_axes d))
       [0..<d_n_samples d]"

definition scenario_built :: "multiple_display traced" where
  "scenario_built =
     init scenario_backend (\<lambda>_. 1) (One scenario_view) (Flat [5 :: int, 1, 9]) (One Slider)
       No_labels No_chart"

definition scenario_plotted :: "multiple_display result" where
  "scenario_plotted = and_then (snd scenario_built) (plot scenario_draw)"

text \<open>The pointer moves over the axes of the slider, which is axes 1.\<close>

definition over_slider :: mouse_event where
  "over_slider = \<lparr>inaxes = Some 1, contains = (\<lambda>_. False)\<rparr>"

definition scenario_hovered :: "multiple_display result" where
  "scenario_hovered = and_then scenario_plotted (hover over_slider)"

text \<open>The plotted state of the scenario, written out.\<close>

definition scenario_state :: multiple_display where
  "scenario_state =
     \<lparr>displays =
        [\<lparr>d_axes = [0],
          d_artists = [[\<lparr>art_id = 0, art_axes = 0, art_is_path = True\<rparr>],
                       [\<lparr>art_id = 1, art_axes = 0, art_is_path = True\<rparr>],
                       [\<lparr>art_id = 2, art_axes = 0, art_is_path = True\<rparr>]],
          d_n_samples = 3\<rparr>],
      point_clicked = None, n_graphs = 1, length_data = 3,
      sliders = [\<lparr>sl_ax = 1, sl_label = Default_label 0, sl_valmin = 0, sl_valmax = 2,
                  sl_val = 0, sl_valtext = Formatted 0\<rparr>],
      criteria = [[1, 0, 2]], clicked = False, index_clicked = - 1,
      tag_visible = False, tag_anchor = None, is_updating = False,
      axes = [0, 1], widget_index = None, alpha = (\<lambda>_. 1)\<rparr>"


definition duet_state :: multiple_display where
  "duet_state =
     scenario_state
       \<lparr>sliders := [\<lparr>sl_ax = 1, sl_label = Default_label 0, sl_valmin = 0, sl_valmax = 2,
                     sl_val = 0, sl_valtext = Formatted 0\<rparr>,
                    \<lparr>sl_ax = 2, sl_label = Default_label 1, sl_valmin = 0, sl_valmax = 2,
                     sl_val = 0, sl_valtext = Formatted 0\<rparr>],
        criteria := [[1, 0, 2], [2, 1, 0]], axes := [0, 1, 2]\<rparr>"


section \<open>Properties of the discretisation\<close>

lemma py_int_unit: "0 \<le> x \<Longrightarrow> x < 1 \<Longrightarrow> py_int x = 0"
  by (simp add: py_int_def floor_eq_iff)

text \<open>
  Claim C9. For every raw slider value in the interval \<open>[0, 1)\<close> the formula
  \<^verbatim>\<open>int(int(value / 0.5) * 0.5)\<close> of \<^verbatim>\<open>value_updated\<close> evaluates to 0.
\<close>

theorem slider_step_unit_interval:
  assumes "0 \<le> v" and "v < 1"
  shows "slider_step v = 0"
proof -
  have lo: "0 \<le> v * 2" using assms by simp
  have hi: "v * 2 < 2" using assms by simp
  have k: "py_int (v / (1 / 2)) = \<lfloor>v * 2\<rfloor>"
    using lo by (simp add: py_int_def)
  have k0: "0 \<le> \<lfloor>v * 2\<rfloor>" using lo by simp
  have k1: "\<lfloor>v * 2\<rfloor> < 2" using hi by (simp add: floor_less_iff)
  have "(of_int \<lfloor>v * 2\<rfloor> :: rat) * (1 / 2) < 1"
    using k1 by (simp add: less_divide_eq)
  moreover have "0 \<le> (of_int \<lfloor>v * 2\<rfloor> :: rat) * (1 / 2)"
    using k0 by simp
  ultimately show ?thesis
    unfolding slider_step_def k by (rule py_int_unit [rotated])
qed

theorem slider_step_unit_interval_witness:
  "(0::rat) \<le> 3 / 4 \<and> (3 / 4 :: rat) < 1 \<and> slider_step (3 / 4) = 0"
  using slider_step_unit_interval [of "3 / 4"] by simp

section \<open>Basic facts\<close>

lemma and_then_Inr [simp]: "and_then (Inr x) f = f x"
  by (simp add: and_then_def)

lemma and_then_Inl [simp]: "and_then (Inl e) f = Inl e"
  by (simp add: and_then_def)

lemma and_then_eq_Inr: "and_then r f = Inr y \<longleftrightarrow> (\<exists>x. r = Inr x \<and> f x = Inr y)"
  by (cases r) simp_all

lemma py_index_Some:
  "x \<in> set xs \<Longrightarrow> \<exists>p. py_index xs x = Some p \<and> p < length xs \<and> xs ! p = x"
  by (induction xs) auto

lemma py_index_SomeD:
  "py_index xs x = Some p \<Longrightarrow> p < length xs \<and> xs ! p = x"
  by (induction xs arbitrary: p) (auto split: if_splits)

lemma value_updated_body_guard: "is_updating s \<Longrightarrow> value_updated_body cb v s = Inr s"
  by (simp add: value_updated_body_def)

lemma set_val_guard:
  "is_updating s \<Longrightarrow>
   set_val (value_updated (Suc d)) j v s =
     Inr (s\<lparr>sliders := (sliders s)[j := (sliders s ! j)\<lparr>sl_val := v, sl_valtext := Formatted v\<rparr>]\<rparr>)"
  by (simp add: set_val_def value_updated_body_guard)

lemma slider_step_values: "slider_step 0 = 0" "slider_step 2 = 2" "slider_step (5 / 2) = 2"
  by (simp_all add: slider_step_def py_int_def floor_eq_iff)

subsection \<open>Painting\<close>

lemma paint_fields [simp]:
  "displays (paint A v s) = displays s" "point_clicked (paint A v s) = point_clicked s"
  "n_graphs (paint A v s) = n_graphs s" "length_data (paint A v s) = length_data s"
  "sliders (paint A v s) = sliders s" "criteria (paint A v s) = criteria s"
  "clicked (paint A v s) = clicked s" "index_clicked (paint A v s) = index_clicked s"
  "tag_visible (paint A v s) = tag_visible s" "tag_anchor (paint A v s) = tag_anchor s"
  "is_updating (paint A v s) = is_updating s" "axes (paint A v s) = axes s"
  "widget_index (paint A v s) = widget_index s"
  "alpha (paint A v s) x = (if x \<in> A then v else alpha s x)"
  by (simp_all add: paint_def)

lemma paint_empty [simp]: "paint {} v s = s"
  by (simp add: paint_def)

lemma paint_paint [simp]: "paint A v (paint B v s) = paint (A \<union> B) v s"
  by (auto simp: paint_def fun_eq_iff)

lemma fold_set_alpha: "fold (set_alpha v) row s = paint (art_id ` set row) v s"
proof (induction row arbitrary: s)
  case Nil
  show ?case by simp
next
  case (Cons a row)
  have "set_alpha v a s = paint {art_id a} v s"
    by (auto simp: set_alpha_def paint_def fun_eq_iff)
  then show ?case
    by (simp add: Cons.IH Un_commute)
qed

lemma sample_set_alpha_eq:
  "sample_set_alpha i v ds s =
     (if \<forall>d\<in>set ds. i < length (d_artists d) then Inr (paint (row_ids ds i) v s)
      else Inl IndexError)"
proof (induction ds arbitrary: s)
  case Nil
  show ?case by (simp add: row_ids_def)
next
  case (Cons d ds)
  have "row_ids ds i \<union> art_id ` set (d_artists d ! i) = row_ids (d # ds) i"
    by (auto simp: row_ids_def)
  then show ?case
    by (simp add: Cons.IH fold_set_alpha)
qed

section \<open>The scenario, evaluated\<close>

lemma scenario_plotted_eq: "scenario_plotted = Inr scenario_state"
  unfolding scenario_plotted_def scenario_built_def scenario_state_def
  by (simp add: init_def scenario_backend_def scenario_view_def init_axes_def then_traced_def
      create_sliders_def add_slider_def plot_def scenario_draw_def
      slider_order_def py_dict_def upt_rec)

lemma scenario_hovered_eq: "scenario_hovered = Inr (scenario_state\<lparr>widget_index := Some 0\<rparr>)"
  unfolding scenario_hovered_def scenario_plotted_eq
  by (simp add: hover_def sample_artist_from_event_def over_slider_def scenario_state_def
      upt_rec)

lemmas handler_defs = value_updated_body_def and_then_def slider_step_values py_get_def
  zip_range_def reduce_points_intensity_def change_points_intensity_def
  restore_points_intensity_def set_val_def set_alpha_def change_display_intensity_def Let_def

section \<open>The order list\<close>

text \<open>
  Claim C1, at the criterion \<open>[1, 1]\<close> with \<open>length_data = 2\<close>: the dictionary keeps one
  entry for the value 1, holding the index 1, so the order list is \<open>[1]\<close>. Sample 0 has
  no position: the list is not a permutation of \<open>[0, 2)\<close>.
\<close>

theorem slider_order_drops_ties:
  "slider_order [1 :: int, 1] 2 = [1] \<and> 0 \<notin> set (slider_order [1 :: int, 1] 2)"
  by (simp add: slider_order_def py_dict_def upt_rec)

section \<open>The update guard\<close>

text \<open>
  Claim C3. While \<open>is_updating\<close> is true, \<^verbatim>\<open>value_updated\<close> returns at once with the
  state it was given: selection index, clicked flag, sliders with their values and texts,
  and the opacity of every artist are all as before.
\<close>

theorem value_updated_guard:
  assumes "is_updating s"
  shows "value_updated (Suc depth) v s = Inr s"
  using assms by (simp add: value_updated_body_guard)

theorem value_updated_guard_witness:
  "is_updating (scenario_state\<lparr>is_updating := True\<rparr>) \<and>
   value_updated (Suc 0) 2 (scenario_state\<lparr>is_updating := True\<rparr>) =
     Inr (scenario_state\<lparr>is_updating := True\<rparr>)"
  using value_updated_guard [of "scenario_state\<lparr>is_updating := True\<rparr>" 0 2] by simp

section \<open>The scenario of the specification\<close>

text \<open>
  Claim C8. With \<open>length_data = 3\<close>, one view and the criterion \<open>[5, 1, 9]\<close> the order
  list built is \<open>[1, 0, 2]\<close>. Once the pointer has moved over the slider, a change of
  the slider to step 0 selects sample 1 and a change to step 2 selects sample 2, from the
  neutral state as well as one after the other.
\<close>

theorem scenario_order_and_steps:
  "map_sum id criteria (snd scenario_built) = Inr [[1, 0, 2]] \<and>
   map_sum id index_clicked
     (and_then scenario_hovered (value_updated (Suc (Suc depth)) 0)) = Inr 1 \<and>
   map_sum id index_clicked
     (and_then scenario_hovered (value_updated (Suc (Suc depth)) 2)) = Inr 2 \<and>
   map_sum id index_clicked
     (and_then (and_then scenario_hovered (value_updated (Suc (Suc depth)) 0))
        (value_updated (Suc (Suc depth)) 2)) = Inr 2"
proof -
  have built: "map_sum id criteria (snd scenario_built) = Inr [[1, 0, 2]]"
    unfolding scenario_built_def
    by (simp add: init_def scenario_backend_def scenario_view_def init_axes_def then_traced_def
        create_sliders_def add_slider_def slider_order_def py_dict_def upt_rec)
  have step0: "map_sum id index_clicked
     (and_then scenario_hovered (value_updated (Suc (Suc depth)) 0)) = Inr 1"
    unfolding scenario_hovered_eq by (simp add: handler_defs scenario_state_def upt_rec)
  have step2: "map_sum id index_clicked
     (and_then scenario_hovered (value_updated (Suc (Suc depth)) 2)) = Inr 2"
    unfolding scenario_hovered_eq by (simp add: handler_defs scenario_state_def upt_rec)
  have both: "map_sum id index_clicked
     (and_then (and_then scenario_hovered (value_updated (Suc (Suc depth)) 0))
        (value_updated (Suc (Suc depth)) 2)) = Inr 2"
    unfolding scenario_hovered_eq by (simp add: handler_defs scenario_state_def upt_rec)
  from built step0 step2 both show ?thesis by simp
qed

section \<open>Construction: checks and effects\<close>

lemma then_traced_simps [simp]:
  "then_traced (tr, Inl e) f = (tr, Inl e)"
  "then_traced (tr, Inr x) f = (tr @ fst (f x), snd (f x))"
  by (simp_all add: then_traced_def split: prod.splits)

lemma then_traced_Inr:
  "snd r = Inr x \<Longrightarrow> then_traced r f = (fst r @ fst (f x), snd (f x))"
  by (cases r) (simp add: then_traced_def split: prod.splits)

lemma then_traced_Inl:
  "snd r = Inl e \<Longrightarrow> then_traced r f = (fst r, Inl e)"
  by (cases r) (simp add: then_traced_def)

lemma init_axes_loop_ok:
  "\<forall>i\<in>set is. i < length axs \<Longrightarrow>
   snd (init_axes_loop axs used is) = Inr () \<and>
   list_all (\<lambda>x. \<not> is_widget_effect x) (fst (init_axes_loop axs used is))"
  by (induction "is") auto

lemma init_axes_loop_no_widget:
  "list_all (\<lambda>x. \<not> is_widget_effect x) (fst (init_axes_loop axs used is))"
  by (induction "is") auto

lemma get_figure_and_axes_supplied:
  "snd (get_figure_and_axes chart) \<noteq> [] \<Longrightarrow> fst (get_figure_and_axes chart) = []"
  by (cases chart) auto

lemma get_figure_and_axes_no_widget:
  "list_all (\<lambda>x. \<not> is_widget_effect x) (fst (get_figure_and_axes chart))"
  by (cases chart) auto

lemma init_axes_bad_count:
  "supplied_axes chart \<noteq> [] \<Longrightarrow> length (supplied_axes chart) \<noteq> n_graphs s + extra \<Longrightarrow>
   init_axes b chart extra s = ([], Inl ValueError)"
  using get_figure_and_axes_supplied [of chart]
  by (auto simp: init_axes_def supplied_axes_def split: prod.splits)

lemma init_axes_ok:
  assumes "supplied_axes chart = [] \<or> length (supplied_axes chart) = n_graphs s + extra"
    and "layout_fits b (supplied_axes chart) (n_graphs s + extra)"
  shows "snd (init_axes b chart extra s) =
           Inr (s\<lparr>axes := set_figure_layout b (supplied_axes chart) (n_graphs s + extra)\<rparr>) \<and>
         list_all (\<lambda>x. \<not> is_widget_effect x) (fst (init_axes b chart extra s)) \<and>
         Set_figure_layout (n_graphs s + extra) \<in> set (fst (init_axes b chart extra s))"
proof -
  obtain tr axs where g: "get_figure_and_axes chart = (tr, axs)" by (cases "get_figure_and_axes chart")
  obtain r c where sh: "get_axes_shape b (n_graphs s + extra) = (r, c)"
    by (cases "get_axes_shape b (n_graphs s + extra)")
  have axs: "axs = supplied_axes chart" using g by (simp add: supplied_axes_def)
  have fits: "r * c \<le> length (set_figure_layout b axs (n_graphs s + extra))"
    using assms(2) sh axs by (simp add: layout_fits_def)
  then have rng: "\<forall>i\<in>set [n_graphs s..<r * c]. i < length (set_figure_layout b axs (n_graphs s + extra))"
    by auto
  have tr: "list_all (\<lambda>x. \<not> is_widget_effect x) tr"
    using get_figure_and_axes_no_widget [of chart] g by simp
  from assms(1) axs have cnt: "length axs = 0 \<or> length axs = n_graphs s + extra" by auto
  show ?thesis
    using cnt init_axes_loop_ok [OF rng, of "n_graphs s + extra"] tr
    by (auto simp: init_axes_def g sh axs [symmetric] Let_def then_traced_Inr)
qed


lemma create_sliders_bad_length:
  "list_ex (\<lambda>c. length c \<noteq> length_data s) cs \<Longrightarrow>
   create_sliders cs ws ls s = ([], Inl ValueError)"
  by (simp add: create_sliders_def)


lemma init_unfold:
  assumes "as_list displays_arg \<noteq> []"
  shows "init b opacity displays_arg criteria_arg sliders_arg label_sliders chart =
    (if length (criteria_list criteria_arg) \<noteq> length (as_list sliders_arg)
     then ([], Inl ValueError)
     else then_traced
       (init_axes b chart (length (criteria_list criteria_arg))
          \<lparr>displays = as_list displays_arg, point_clicked = None,
           n_graphs = view_axes displays_arg,
           length_data = d_n_samples (as_list displays_arg ! 0),
           sliders = [], criteria = [], clicked = False, index_clicked = - 1,
           tag_visible = True, tag_anchor = None, is_updating = False,
           axes = [], widget_index = None, alpha = opacity\<rparr>)
       (create_sliders (criteria_list criteria_arg) (as_list sliders_arg)
          (label_list label_sliders)))"
  using assms by (simp add: init_def view_axes_def Let_def)

text \<open>
  Claim C7. Construction succeeds only if there are as many criteria as slider widget
  factories and, when axes are supplied, only if their number is the number of view axes
  plus the number of criteria; in either violating case it fails with a \<open>ValueError\<close>.
  Line 133 accepts a set of no axes as "none supplied". The constructor is given at
  least one view, as line 70 reads \<^verbatim>\<open>self.displays[0]\<close>.
\<close>

theorem init_count_checks:
  assumes "as_list displays_arg \<noteq> []"
  shows
    "(length (criteria_list criteria_arg) \<noteq> length (as_list sliders_arg) \<longrightarrow>
        snd (init b opacity displays_arg criteria_arg sliders_arg label_sliders chart) =
          Inl ValueError) \<and>
     (supplied_axes chart \<noteq> [] \<and>
      length (supplied_axes chart) \<noteq> view_axes displays_arg + length (criteria_list criteria_arg) \<longrightarrow>
        snd (init b opacity displays_arg criteria_arg sliders_arg label_sliders chart) =
          Inl ValueError) \<and>
     (\<forall>s. snd (init b opacity displays_arg criteria_arg sliders_arg label_sliders chart) = Inr s \<longrightarrow>
        length (criteria_list criteria_arg) = length (as_list sliders_arg) \<and>
        (supplied_axes chart \<noteq> [] \<longrightarrow>
           length (supplied_axes chart) =
             view_axes displays_arg + length (criteria_list criteria_arg)))"
proof -
  let ?s0 = "\<lparr>displays = as_list displays_arg, point_clicked = None,
           n_graphs = view_axes displays_arg,
           length_data = d_n_samples (as_list displays_arg ! 0),
           sliders = [], criteria = [], clicked = False, index_clicked = - 1,
           tag_visible = True, tag_anchor = None, is_updating = False,
           axes = [], widget_index = None, alpha = opacity\<rparr>"
  let ?n = "length (criteria_list criteria_arg)"
  note u = init_unfold [OF assms, of b opacity criteria_arg sliders_arg label_sliders chart]
  have bad: "supplied_axes chart \<noteq> [] \<Longrightarrow>
      length (supplied_axes chart) \<noteq> view_axes displays_arg + ?n \<Longrightarrow>
      init_axes b chart ?n ?s0 = ([], Inl ValueError)"
    using init_axes_bad_count [of chart ?s0 ?n b] by simp
  have first: "?n \<noteq> length (as_list sliders_arg) \<longrightarrow>
      snd (init b opacity displays_arg criteria_arg sliders_arg label_sliders chart) = Inl ValueError"
    by (simp add: u)
  have second: "supplied_axes chart \<noteq> [] \<and>
      length (supplied_axes chart) \<noteq> view_axes displays_arg + ?n \<longrightarrow>
      snd (init b opacity displays_arg criteria_arg sliders_arg label_sliders chart) = Inl ValueError"
    using bad by (auto simp: u)
  have third: "\<forall>s. snd (init b opacity displays_arg criteria_arg sliders_arg label_sliders chart) = Inr s \<longrightarrow>
        ?n = length (as_list sliders_arg) \<and>
        (supplied_axes chart \<noteq> [] \<longrightarrow>
           length (supplied_axes chart) = view_axes displays_arg + ?n)"
    using first second by auto
  from first second third show ?thesis by blast
qed


lemma scenario_view_nonempty: "as_list (One scenario_view) \<noteq> []"
  by simp

theorem init_count_checks_witness:
  "as_list (One scenario_view) \<noteq> [] \<and>
   length (criteria_list (Nested [[5 :: int, 1, 9], [1, 2, 3]])) \<noteq> length (as_list (One Slider)) \<and>
   snd (init scenario_backend (\<lambda>_. 1) (One scenario_view) (Nested [[5 :: int, 1, 9], [1, 2, 3]])
          (One Slider) No_labels No_chart) = Inl ValueError \<and>
   supplied_axes (Given_axes [7]) \<noteq> [] \<and>
   length (supplied_axes (Given_axes [7])) \<noteq>
     view_axes (One scenario_view) + length (criteria_list (Flat [5 :: int, 1, 9])) \<and>
   snd (init scenario_backend (\<lambda>_. 1) (One scenario_view) (Flat [5 :: int, 1, 9])
          (One Slider) No_labels (Given_axes [7])) = Inl ValueError \<and>
   (\<exists>s. snd scenario_built = Inr s) \<and>
   length (criteria_list (Flat [5 :: int, 1, 9])) = length (as_list (One Slider))"
proof -
  have a: "length (criteria_list (Nested [[5 :: int, 1, 9], [1, 2, 3]])) \<noteq> length (as_list (One Slider))"
    by simp
  have b: "supplied_axes (Given_axes [7]) \<noteq> [] \<and>
    length (supplied_axes (Given_axes [7])) \<noteq>
      view_axes (One scenario_view) + length (criteria_list (Flat [5 :: int, 1, 9]))"
    by (simp add: supplied_axes_def view_axes_def scenario_view_def)
  have c: "\<exists>s. snd scenario_built = Inr s"
    using scenario_plotted_eq by (auto simp: scenario_plotted_def and_then_eq_Inr)
  from init_count_checks [OF scenario_view_nonempty] a
  have 1: "snd (init scenario_backend (\<lambda>_. 1) (One scenario_view) (Nested [[5 :: int, 1, 9], [1, 2, 3]])
          (One Slider) No_labels No_chart) = Inl ValueError"
    by blast
  from init_count_checks [OF scenario_view_nonempty] b
  have 2: "snd (init scenario_backend (\<lambda>_. 1) (One scenario_view) (Flat [5 :: int, 1, 9])
          (One Slider) No_labels (Given_axes [7])) = Inl ValueError"
    by blast
  from c obtain s where s: "snd scenario_built = Inr s" by blast
  from init_count_checks [OF scenario_view_nonempty, of "Flat [5 :: int, 1, 9]" "One Slider"
      scenario_backend "\<lambda>_. 1" No_labels No_chart] s
  have 3: "length (criteria_list (Flat [5 :: int, 1, 9])) = length (as_list (One Slider))"
    unfolding scenario_built_def by blast
  from scenario_view_nonempty a 1 b 2 c 3 show ?thesis by blast
qed

text \<open>
  Claim C6 as stated fails on the scenario of the specification, one criterion \<open>[1, 2]\<close>
  for five samples: when the \<open>ValueError\<close> is raised the figure has been created and
  laid out and the slider's axes have been given their aspect.
\<close>

theorem criterion_length_error_after_layout:
  "init scenario_backend (\<lambda>_. 1) (One (scenario_view\<lparr>d_n_samples := 5\<rparr>)) (Nested [[1 :: int, 2]])
     (One Slider) No_labels No_chart =
   ([Create_figure, Set_figure_layout 2, Set_box_aspect 1], Inl ValueError)"
  by (simp add: init_def scenario_backend_def scenario_view_def init_axes_def then_traced_def
      create_sliders_def upt_rec)


section \<open>Slider loops under the guard\<close>

lemma push_selection_guard:
  assumes "is_updating s" and "push_selection (value_updated (Suc d)) js s = Inr s'"
  shows "\<exists>sl. s' = s\<lparr>sliders := sl\<rparr> \<and> length sl = length (sliders s) \<and>
           (\<forall>j\<in>set js. \<exists>p. py_index (map int (criteria s ! j)) (index_clicked s) = Some p \<and>
                             (j < length sl \<longrightarrow> sl_val (sl ! j) = of_nat p)) \<and>
           (\<forall>j. j \<notin> set js \<longrightarrow> sl ! j = sliders s ! j)"
  using assms
proof (induction js arbitrary: s)
  case Nil
  then have "s' = s\<lparr>sliders := sliders s\<rparr>" by simp
  then show ?case by (intro exI [of _ "sliders s"]) simp
next
  case (Cons j js)
  from Cons.prems(2) obtain p where p: "py_index (map int (criteria s ! j)) (index_clicked s) = Some p"
    by (auto split: option.splits)
  let ?s1 = "s\<lparr>sliders := (sliders s)[j := (sliders s ! j)\<lparr>sl_val := of_nat p, sl_valtext := Formatted (of_nat p)\<rparr>]\<rparr>"
  from Cons.prems p have run: "push_selection (value_updated (Suc d)) js ?s1 = Inr s'"
    by (simp add: set_val_guard del: value_updated.simps)
  have upd: "is_updating ?s1" using Cons.prems(1) by simp
  from Cons.IH [OF upd run] obtain sl where sl:
    "s' = ?s1\<lparr>sliders := sl\<rparr>" "length sl = length (sliders ?s1)"
    "\<forall>j\<in>set js. \<exists>p. py_index (map int (criteria ?s1 ! j)) (index_clicked ?s1) = Some p \<and>
                             (j < length sl \<longrightarrow> sl_val (sl ! j) = of_nat p)"
    "\<forall>i. i \<notin> set js \<longrightarrow> sl ! i = sliders ?s1 ! i"
    by blast
  have 1: "s' = s\<lparr>sliders := sl\<rparr>" using sl(1) by simp
  have 2: "length sl = length (sliders s)" using sl(2) by simp
  have 3: "\<forall>i\<in>set (j # js). \<exists>p. py_index (map int (criteria s ! i)) (index_clicked s) = Some p \<and>
                             (i < length sl \<longrightarrow> sl_val (sl ! i) = of_nat p)"
  proof
    fix i assume i: "i \<in> set (j # js)"
    show "\<exists>p. py_index (map int (criteria s ! i)) (index_clicked s) = Some p \<and>
                             (i < length sl \<longrightarrow> sl_val (sl ! i) = of_nat p)"
    proof (cases "i \<in> set js")
      case True
      with sl(3) show ?thesis by simp
    next
      case False
      with i have ij: "i = j" by simp
      from False sl(4) have "sl ! i = sliders ?s1 ! i" by blast
      with ij p 2 show ?thesis by auto
    qed
  qed
  have 4: "\<forall>i. i \<notin> set (j # js) \<longrightarrow> sl ! i = sliders s ! i"
    using sl(4) by auto
  from 1 2 3 4 show ?case by blast
qed

lemma push_selection_succeeds:
  assumes "is_updating s"
    and "\<forall>j\<in>set js. index_clicked s \<in> int ` set (criteria s ! j)"
  shows "\<exists>s'. push_selection (value_updated (Suc d)) js s = Inr s'"
  using assms
proof (induction js arbitrary: s)
  case Nil
  show ?case by simp
next
  case (Cons j js)
  from Cons.prems(2) have "index_clicked s \<in> set (map int (criteria s ! j))" by simp
  from py_index_Some [OF this] obtain p where
    p: "py_index (map int (criteria s ! j)) (index_clicked s) = Some p" by blast
  let ?s1 = "s\<lparr>sliders := (sliders s)[j := (sliders s ! j)\<lparr>sl_val := of_nat p, sl_valtext := Formatted (of_nat p)\<rparr>]\<rparr>"
  have "\<exists>s'. push_selection (value_updated (Suc d)) js ?s1 = Inr s'"
    using Cons.prems by (intro Cons.IH) simp_all
  then show ?case
    using Cons.prems(1) p by (simp add: set_val_guard del: value_updated.simps)
qed

lemma reset_sliders_guard:
  assumes "is_updating s"
  shows "\<exists>sl. reset_sliders (value_updated (Suc d)) js s = Inr (s\<lparr>sliders := sl\<rparr>) \<and>
           length sl = length (sliders s) \<and>
           (\<forall>j\<in>set js. j < length sl \<longrightarrow> sl_val (sl ! j) = 0) \<and>
           (\<forall>j. j \<notin> set js \<longrightarrow> sl ! j = sliders s ! j)"
  using assms
proof (induction js arbitrary: s)
  case Nil
  have "s = s\<lparr>sliders := sliders s\<rparr>" by simp
  then show ?case by (intro exI [of _ "sliders s"]) simp
next
  case (Cons j js)
  let ?s1 = "s\<lparr>sliders := (sliders s)[j := (sliders s ! j)\<lparr>sl_val := 0, sl_valtext := Formatted 0\<rparr>]\<rparr>"
  have upd: "is_updating ?s1" using Cons.prems by simp
  from Cons.IH [OF upd] obtain sl where sl:
    "reset_sliders (value_updated (Suc d)) js ?s1 = Inr (?s1\<lparr>sliders := sl\<rparr>)"
    "length sl = length (sliders ?s1)"
    "\<forall>j\<in>set js. j < length sl \<longrightarrow> sl_val (sl ! j) = 0"
    "\<forall>i. i \<notin> set js \<longrightarrow> sl ! i = sliders ?s1 ! i"
    by blast
  have 1: "reset_sliders (value_updated (Suc d)) (j # js) s = Inr (s\<lparr>sliders := sl\<rparr>)"
    using Cons.prems sl(1) by (simp add: set_val_guard del: value_updated.simps)
  have 2: "length sl = length (sliders s)" using sl(2) by simp
  have 3: "\<forall>i\<in>set (j # js). i < length sl \<longrightarrow> sl_val (sl ! i) = 0"
  proof (intro ballI impI)
    fix i assume i: "i \<in> set (j # js)" and l: "i < length sl"
    show "sl_val (sl ! i) = 0"
    proof (cases "i \<in> set js")
      case True
      with sl(3) l show ?thesis by simp
    next
      case False
      with i have ij: "i = j" by simp
      from False sl(4) have "sl ! i = sliders ?s1 ! i" by blast
      with ij l 2 show ?thesis by auto
    qed
  qed
  have 4: "\<forall>i. i \<notin> set (j # js) \<longrightarrow> sl ! i = sliders s ! i"
    using sl(4) by auto
  from 1 2 3 4 show ?case by blast
qed

section \<open>Opacity loops\<close>

lemma reduce_loop_eq:
  "reduce_loop is s =
     (if \<forall>i\<in>set is. int i \<noteq> index_clicked s \<longrightarrow> (\<forall>d\<in>set (displays s). i < length (d_artists d))
      then Inr (paint (\<Union>i\<in>{i \<in> set is. int i \<noteq> index_clicked s}. row_ids (displays s) i) (1 / 10) s)
      else Inl IndexError)"
proof (induction "is" arbitrary: s)
  case Nil
  show ?case by simp
next
  case (Cons i "is")
  let ?U = "\<lambda>js. (\<Union>i\<in>{i \<in> set js. int i \<noteq> index_clicked s}. row_ids (displays s) i)"
  let ?ok = "\<lambda>js. \<forall>i\<in>set js. int i \<noteq> index_clicked s \<longrightarrow> (\<forall>d\<in>set (displays s). i < length (d_artists d))"
  show ?case
  proof (cases "int i \<noteq> index_clicked s")
    case False
    have U: "?U (i # is) = ?U is" using False by auto
    have ok: "?ok (i # is) = ?ok is" using False by auto
    have step: "reduce_loop (i # is) s = reduce_loop is s" using False by simp
    show ?thesis unfolding step U ok by (rule Cons.IH)
  next
    case True
    have U: "?U (i # is) = ?U is \<union> row_ids (displays s) i" using True by auto
    show ?thesis
    proof (cases "\<forall>d\<in>set (displays s). i < length (d_artists d)")
      case rows: True
      let ?s1 = "paint (row_ids (displays s) i) (1 / 10) s"
      have ok: "?ok (i # is) = ?ok is" using rows by auto
      have step: "reduce_loop (i # is) s = reduce_loop is ?s1"
        using True rows by (simp add: sample_set_alpha_eq)
      have ih: "reduce_loop is ?s1 =
          (if ?ok is then Inr (paint (?U is) (1 / 10) ?s1) else Inl IndexError)"
        by (simp only: Cons.IH [of ?s1] paint_fields)
      have eq: "paint (?U is) (1 / 10) ?s1 = paint (?U (i # is)) (1 / 10) s"
        unfolding U by simp
      show ?thesis unfolding step ih ok eq by (rule refl)
    next
      case norows: False
      have "reduce_loop (i # is) s = Inl IndexError"
        using True norows by (auto simp: sample_set_alpha_eq)
      moreover have "\<not> ?ok (i # is)" using True norows by auto
      ultimately show ?thesis by simp
    qed
  qed
qed

lemma restore_loop_eq:
  "restore_loop is s =
     (if \<forall>i\<in>set is. \<forall>d\<in>set (displays s). i < length (d_artists d)
      then Inr (paint (\<Union>i\<in>set is. row_ids (displays s) i) 1 s)
      else Inl IndexError)"
proof (induction "is" arbitrary: s)
  case Nil
  show ?case by simp
next
  case (Cons i "is")
  let ?ok = "\<lambda>js. \<forall>i\<in>set js. \<forall>d\<in>set (displays s). i < length (d_artists d)"
  show ?case
  proof (cases "\<forall>d\<in>set (displays s). i < length (d_artists d)")
    case rows: True
    let ?s1 = "paint (row_ids (displays s) i) 1 s"
    have ok: "?ok (i # is) = ?ok is" using rows by auto
    have step: "restore_loop (i # is) s = restore_loop is ?s1"
      using rows by (simp add: sample_set_alpha_eq)
    have ih: "restore_loop is ?s1 =
        (if ?ok is then Inr (paint (\<Union>i\<in>set is. row_ids (displays s) i) 1 ?s1)
         else Inl IndexError)"
      by (simp only: Cons.IH [of ?s1] paint_fields)
    have U: "(\<Union>i\<in>set (i # is). row_ids (displays s) i) =
        (\<Union>i\<in>set is. row_ids (displays s) i) \<union> row_ids (displays s) i"
      by auto
    have eq: "paint (\<Union>i\<in>set is. row_ids (displays s) i) 1 ?s1 =
        paint (\<Union>i\<in>set (i # is). row_ids (displays s) i) 1 s"
      unfolding U by simp
    show ?thesis unfolding step ih ok eq by (rule refl)
  next
    case norows: False
    have "restore_loop (i # is) s = Inl IndexError"
      using norows by (auto simp: sample_set_alpha_eq)
    moreover have "\<not> ?ok (i # is)" using norows by auto
    ultimately show ?thesis by simp
  qed
qed

lemma change_display_intensity_eq:
  "\<forall>d\<in>set (displays s). i < length (d_artists d) \<Longrightarrow>
   change_display_intensity i v s = Inr (paint (row_ids (displays s) i) v s)"
proof -
  have "\<forall>d\<in>set ds. i < length (d_artists d) \<Longrightarrow>
     change_display_loop i v ds t = Inr (paint (row_ids ds i) v t)" for ds t
  proof (induction ds arbitrary: t)
    case Nil
    show ?case by (simp add: row_ids_def)
  next
    case (Cons d ds)
    have "row_ids ds i \<union> art_id ` set (d_artists d ! i) = row_ids (d # ds) i"
      by (auto simp: row_ids_def)
    with Cons show ?case by (auto simp: fold_set_alpha)
  qed
  then show "\<forall>d\<in>set (displays s). i < length (d_artists d) \<Longrightarrow>
   change_display_intensity i v s = Inr (paint (row_ids (displays s) i) v s)"
    by (simp add: change_display_intensity_def)
qed

lemma paint_swap:
  "A \<inter> B = {} \<Longrightarrow> paint A v (paint B w s) = paint B w (paint A v s)"
  by (cases s) (auto simp: paint_def fun_eq_iff)

lemma change_loop_eq:
  assumes "\<forall>i\<in>set is. \<forall>d\<in>set (displays s). i < length (d_artists d)"
    and "(\<Union>i\<in>{i \<in> set is. int i = index_clicked s}. row_ids (displays s) i) \<inter>
         (\<Union>i\<in>{i \<in> set is. int i = old}. row_ids (displays s) i) = {}"
    and "index_clicked s \<noteq> old"
  shows "change_loop old is s =
     Inr (paint (\<Union>i\<in>{i \<in> set is. int i = index_clicked s}. row_ids (displays s) i) 1
           (paint (\<Union>i\<in>{i \<in> set is. int i = old}. row_ids (displays s) i) (1 / 10) s))"
  using assms
proof (induction "is" arbitrary: s)
  case Nil
  show ?case by simp
next
  case (Cons i "is")
  let ?N = "\<lambda>js. (\<Union>i\<in>{i \<in> set js. int i = index_clicked s}. row_ids (displays s) i)"
  let ?O = "\<lambda>js. (\<Union>i\<in>{i \<in> set js. int i = old}. row_ids (displays s) i)"
  have rows: "\<forall>d\<in>set (displays s). i < length (d_artists d)" using Cons.prems(1) by simp
  have sub: "?N is \<inter> ?O is = {}" using Cons.prems(2) by auto
  consider (new) "int i = index_clicked s" | (old) "int i \<noteq> index_clicked s" "int i = old"
    | (other) "int i \<noteq> index_clicked s" "int i \<noteq> old" by blast
  then show ?case
  proof cases
    case new
    let ?s1 = "paint (row_ids (displays s) i) 1 s"
    have pre1: "\<forall>i\<in>set is. \<forall>d\<in>set (displays ?s1). i < length (d_artists d)"
      using Cons.prems(1) by simp
    have pre2: "(\<Union>i\<in>{i \<in> set is. int i = index_clicked ?s1}. row_ids (displays ?s1) i) \<inter>
         (\<Union>i\<in>{i \<in> set is. int i = old}. row_ids (displays ?s1) i) = {}"
      using sub by simp
    have pre3: "index_clicked ?s1 \<noteq> old" using Cons.prems(3) by simp
    have ih: "change_loop old is ?s1 = Inr (paint (?N is) 1 (paint (?O is) (1 / 10) ?s1))"
      using Cons.IH [OF pre1 pre2 pre3] by simp
    have N: "?N (i # is) = row_ids (displays s) i \<union> ?N is" using new by auto
    have O: "?O (i # is) = ?O is" using new Cons.prems(3) by auto
    have dis: "row_ids (displays s) i \<inter> ?O is = {}" using Cons.prems(2) new N O by auto
    have "paint (?O is) (1 / 10) ?s1 = paint (row_ids (displays s) i) 1 (paint (?O is) (1 / 10) s)"
      using dis by (intro paint_swap) auto
    then have eq: "paint (?N is) 1 (paint (?O is) (1 / 10) ?s1) =
        paint (?N (i # is)) 1 (paint (?O (i # is)) (1 / 10) s)"
      unfolding N O by (simp add: Un_commute)
    have step: "change_loop old (i # is) s = change_loop old is ?s1"
      using new rows by (simp add: change_display_intensity_eq)
    show ?thesis unfolding step ih eq by (rule refl)
  next
    case old
    let ?s1 = "paint (row_ids (displays s) i) (1 / 10) s"
    have pre1: "\<forall>i\<in>set is. \<forall>d\<in>set (displays ?s1). i < length (d_artists d)"
      using Cons.prems(1) by simp
    have pre2: "(\<Union>i\<in>{i \<in> set is. int i = index_clicked ?s1}. row_ids (displays ?s1) i) \<inter>
         (\<Union>i\<in>{i \<in> set is. int i = old}. row_ids (displays ?s1) i) = {}"
      using sub by simp
    have pre3: "index_clicked ?s1 \<noteq> old" using Cons.prems(3) by simp
    have ih: "change_loop old is ?s1 = Inr (paint (?N is) 1 (paint (?O is) (1 / 10) ?s1))"
      using Cons.IH [OF pre1 pre2 pre3] by simp
    have N: "?N (i # is) = ?N is" using old by auto
    have O: "?O (i # is) = row_ids (displays s) i \<union> ?O is" using old by auto
    have eq: "paint (?N is) 1 (paint (?O is) (1 / 10) ?s1) =
        paint (?N (i # is)) 1 (paint (?O (i # is)) (1 / 10) s)"
      unfolding N O by (simp add: Un_commute)
    have step: "change_loop old (i # is) s = change_loop old is ?s1"
      using old rows by (simp add: change_display_intensity_eq)
    show ?thesis unfolding step ih eq by (rule refl)
  next
    case other
    have pre1: "\<forall>i\<in>set is. \<forall>d\<in>set (displays s). i < length (d_artists d)"
      using Cons.prems(1) by simp
    have ih: "change_loop old is s = Inr (paint (?N is) 1 (paint (?O is) (1 / 10) s))"
      using Cons.IH [OF pre1 sub Cons.prems(3)] .
    have N: "?N (i # is) = ?N is" using other by auto
    have O: "?O (i # is) = ?O is" using other by auto
    have step: "change_loop old (i # is) s = change_loop old is s"
      using other by simp
    show ?thesis unfolding step N O by (rule ih)
  qed
qed

section \<open>The fan-out operations\<close>

lemma rows_completeD:
  "rows_complete s \<Longrightarrow> \<forall>i\<in>set [0..<length_data s]. \<forall>d\<in>set (displays s). i < length (d_artists d)"
  by (auto simp: rows_complete_def list_all_iff)

lemma sliders_syncedI:
  assumes "\<forall>j<min (length (criteria s)) (length (sliders s)).
             \<exists>p. py_index (map int (criteria s ! j)) (index_clicked s) = Some p \<and>
                 sl_val (sliders s ! j) = of_nat p"
  shows "sliders_synced s"
  unfolding sliders_synced_def list_all_length
proof (intro allI impI)
  fix j assume j: "j < length (zip (criteria s) (sliders s))"
  then have "j < min (length (criteria s)) (length (sliders s))" by simp
  with assms obtain p where p: "py_index (map int (criteria s ! j)) (index_clicked s) = Some p"
    "sl_val (sliders s ! j) = of_nat p" by blast
  from py_index_SomeD [OF p(1)] have "p < length (criteria s ! j)" "int (criteria s ! j ! p) = index_clicked s"
    by auto
  with p(2) j show "case zip (criteria s) (sliders s) ! j of
      (c, sl) \<Rightarrow> list_ex (\<lambda>p. sl_val sl = of_nat p \<and> int (c ! p) = index_clicked s) [0..<length c]"
    by (auto simp: list_ex_iff)
qed

lemma reduce_points_intensity_result:
  assumes "reduce_points_intensity (value_updated (Suc d)) s = Inr s'"
  shows "\<exists>sl. s' = (paint (\<Union>i\<in>{i \<in> set [0..<length_data s]. int i \<noteq> index_clicked s}.
                           row_ids (displays s) i) (1 / 10) s)\<lparr>sliders := sl, is_updating := False\<rparr> \<and>
           length sl = length (sliders s) \<and>
           (\<forall>j<min (length (criteria s)) (length (sliders s)).
              \<exists>p. py_index (map int (criteria s ! j)) (index_clicked s) = Some p \<and>
                  sl_val (sl ! j) = of_nat p)"
proof -
  let ?D = "\<Union>i\<in>{i \<in> set [0..<length_data s]. int i \<noteq> index_clicked s}. row_ids (displays s) i"
  let ?s1 = "paint ?D (1 / 10) s"
  from assms obtain s1 s2 where
    s1: "reduce_loop [0..<length_data s] s = Inr s1" and
    s2: "push_selection (value_updated (Suc d)) (zip_range s1) (s1\<lparr>is_updating := True\<rparr>) = Inr s2" and
    s': "s' = s2\<lparr>is_updating := False\<rparr>"
    unfolding reduce_points_intensity_def and_then_eq_Inr by auto
  from s1 have e1: "s1 = ?s1"
    unfolding reduce_loop_eq by (simp split: if_splits)
  have upd: "is_updating (s1\<lparr>is_updating := True\<rparr>)" by simp
  from push_selection_guard [OF upd s2] obtain sl where sl:
    "s2 = s1\<lparr>is_updating := True, sliders := sl\<rparr>" "length sl = length (sliders s1)"
    "\<forall>j\<in>set (zip_range s1). \<exists>p. py_index (map int (criteria s1 ! j)) (index_clicked s1) = Some p \<and>
        (j < length sl \<longrightarrow> sl_val (sl ! j) = of_nat p)"
    by auto
  have 1: "s' = ?s1\<lparr>sliders := sl, is_updating := False\<rparr>"
    unfolding s' sl(1) e1 by simp
  have 2: "length sl = length (sliders s)" using sl(2) e1 by simp
  have 3: "\<forall>j<min (length (criteria s)) (length (sliders s)).
              \<exists>p. py_index (map int (criteria s ! j)) (index_clicked s) = Some p \<and>
                  sl_val (sl ! j) = of_nat p"
  proof (intro allI impI)
    fix j assume j: "j < min (length (criteria s)) (length (sliders s))"
    then have "j \<in> set (zip_range s1)" unfolding e1 zip_range_def by simp
    with sl(3) obtain p where "py_index (map int (criteria s1 ! j)) (index_clicked s1) = Some p"
      "j < length sl \<longrightarrow> sl_val (sl ! j) = of_nat p" by blast
    with j 2 show "\<exists>p. py_index (map int (criteria s ! j)) (index_clicked s) = Some p \<and>
                  sl_val (sl ! j) = of_nat p"
      unfolding e1 by auto
  qed
  from 1 2 3 show ?thesis by blast
qed

lemma reduce_points_intensity_succeeds:
  assumes "rows_complete s"
    and "\<forall>j<min (length (criteria s)) (length (sliders s)).
           index_clicked s \<in> int ` set (criteria s ! j)"
  shows "\<exists>s'. reduce_points_intensity (value_updated (Suc d)) s = Inr s'"
proof -
  let ?D = "\<Union>i\<in>{i \<in> set [0..<length_data s]. int i \<noteq> index_clicked s}. row_ids (displays s) i"
  let ?s1 = "paint ?D (1 / 10) s"
  have s1: "reduce_loop [0..<length_data s] s = Inr ?s1"
    unfolding reduce_loop_eq using rows_completeD [OF assms(1)] by simp
  have "\<exists>s2. push_selection (value_updated (Suc d)) (zip_range ?s1) (?s1\<lparr>is_updating := True\<rparr>) = Inr s2"
    using assms(2) by (intro push_selection_succeeds) (simp_all add: zip_range_def)
  then show ?thesis
    unfolding reduce_points_intensity_def s1 by auto
qed

lemma restore_points_intensity_eq:
  assumes "rows_complete s"
  shows "\<exists>sl. restore_points_intensity (value_updated (Suc d)) s =
             Inr ((paint (\<Union>i\<in>set [0..<length_data s]. row_ids (displays s) i) 1 s)
                    \<lparr>point_clicked := None, index_clicked := - 1, sliders := sl,
                     is_updating := False\<rparr>) \<and>
           length sl = length (sliders s) \<and> (\<forall>j<length sl. sl_val (sl ! j) = 0)"
proof -
  let ?s1 = "paint (\<Union>i\<in>set [0..<length_data s]. row_ids (displays s) i) 1 s"
  let ?s2 = "?s1\<lparr>point_clicked := None, index_clicked := - 1, is_updating := True\<rparr>"
  have s1: "restore_loop [0..<length_data s] s = Inr ?s1"
    unfolding restore_loop_eq using rows_completeD [OF assms] by simp
  have upd: "is_updating ?s2" by simp
  from reset_sliders_guard [OF upd, of d "[0..<length (sliders ?s1)]"] obtain sl where sl:
    "reset_sliders (value_updated (Suc d)) [0..<length (sliders ?s1)] ?s2 = Inr (?s2\<lparr>sliders := sl\<rparr>)"
    "length sl = length (sliders ?s2)"
    "\<forall>j\<in>set [0..<length (sliders ?s1)]. j < length sl \<longrightarrow> sl_val (sl ! j) = 0"
    by blast
  have 1: "restore_points_intensity (value_updated (Suc d)) s =
      Inr (?s1\<lparr>point_clicked := None, index_clicked := - 1, sliders := sl, is_updating := False\<rparr>)"
    unfolding restore_points_intensity_def s1 using sl(1) by simp
  have 2: "length sl = length (sliders s)" using sl(2) by simp
  have 3: "\<forall>j<length sl. sl_val (sl ! j) = 0" using sl(3) 2 by simp
  from 1 2 3 show ?thesis by blast
qed


lemma reduce_points_intensity_frame:
  assumes "reduce_points_intensity (value_updated (Suc d)) s = Inr s'"
  shows "same_setup s s' \<and> \<not> is_updating s' \<and> index_clicked s' = index_clicked s \<and>
         point_clicked s' = point_clicked s \<and> clicked s' = clicked s"
  using reduce_points_intensity_result [OF assms] by (auto simp: same_setup_def)

lemma change_display_intensity_alpha:
  assumes "change_display_intensity i v s = Inr s'"
  shows "s' = s\<lparr>alpha := alpha s'\<rparr>"
proof -
  have "change_display_loop i v ds t = Inr t' \<Longrightarrow> t' = t\<lparr>alpha := alpha t'\<rparr>" for ds t t'
  proof (induction ds arbitrary: t)
    case Nil
    then show ?case by simp
  next
    case (Cons d ds)
    show ?case
    proof (cases "length (d_artists d) \<noteq> 0")
      case True
      with Cons.prems have run: "change_display_loop i v ds (paint (art_id ` set (d_artists d ! i)) v t) = Inr t'"
        by (simp add: fold_set_alpha split: if_splits)
      from Cons.IH [OF run] have "t' = (paint (art_id ` set (d_artists d ! i)) v t)\<lparr>alpha := alpha t'\<rparr>" .
      then show ?thesis by (simp add: paint_def)
    next
      case False
      with Cons.prems have "change_display_loop i v ds t = Inr t'" by simp
      from Cons.IH [OF this] show ?thesis .
    qed
  qed
  with assms show ?thesis by (simp add: change_display_intensity_def)
qed

lemma change_loop_alpha:
  "change_loop old is s = Inr s' \<Longrightarrow> s' = s\<lparr>alpha := alpha s'\<rparr>"
proof (induction "is" arbitrary: s)
  case Nil
  then show ?case by simp
next
  case (Cons i "is")
  consider (new) "int i = index_clicked s" | (old) "int i \<noteq> index_clicked s" "int i = old"
    | (other) "int i \<noteq> index_clicked s" "int i \<noteq> old" by blast
  then show ?case
  proof cases
    case new
    with Cons.prems obtain s1 where s1: "change_display_intensity i 1 s = Inr s1"
      and run: "change_loop old is s1 = Inr s'"
      by (auto simp: and_then_eq_Inr)
    from change_display_intensity_alpha [OF s1] have e: "s1 = s\<lparr>alpha := alpha s1\<rparr>" .
    from Cons.IH [OF run] have "s' = s1\<lparr>alpha := alpha s'\<rparr>" .
    then have "s' = s\<lparr>alpha := alpha s1\<rparr>\<lparr>alpha := alpha s'\<rparr>" using e by simp
    then show ?thesis by simp
  next
    case old
    with Cons.prems obtain s1 where s1: "change_display_intensity i (1 / 10) s = Inr s1"
      and run: "change_loop old is s1 = Inr s'"
      by (auto simp: and_then_eq_Inr)
    from change_display_intensity_alpha [OF s1] have e: "s1 = s\<lparr>alpha := alpha s1\<rparr>" .
    from Cons.IH [OF run] have "s' = s1\<lparr>alpha := alpha s'\<rparr>" .
    then have "s' = s\<lparr>alpha := alpha s1\<rparr>\<lparr>alpha := alpha s'\<rparr>" using e by simp
    then show ?thesis by simp
  next
    case other
    with Cons.prems have "change_loop old is s = Inr s'" by simp
    from Cons.IH [OF this] show ?thesis .
  qed
qed

lemma push_phase:
  assumes "push_selection (value_updated (Suc d)) (zip_range t) (t\<lparr>is_updating := True\<rparr>) = Inr s2"
  shows "\<exists>sl. s2\<lparr>is_updating := False\<rparr> = t\<lparr>sliders := sl, is_updating := False\<rparr> \<and>
           length sl = length (sliders t) \<and>
           (\<forall>j<min (length (criteria t)) (length (sliders t)).
              \<exists>p. py_index (map int (criteria t ! j)) (index_clicked t) = Some p \<and>
                  sl_val (sl ! j) = of_nat p)"
proof -
  have upd: "is_updating (t\<lparr>is_updating := True\<rparr>)" by simp
  have zr: "zip_range (t\<lparr>is_updating := True\<rparr>) = zip_range t" by (simp add: zip_range_def)
  from push_selection_guard [OF upd, of d "zip_range t" s2] assms obtain sl where sl:
    "s2 = t\<lparr>is_updating := True, sliders := sl\<rparr>" "length sl = length (sliders t)"
    "\<forall>j\<in>set (zip_range t). \<exists>p. py_index (map int (criteria t ! j)) (index_clicked t) = Some p \<and>
        (j < length sl \<longrightarrow> sl_val (sl ! j) = of_nat p)"
    by auto
  have 1: "s2\<lparr>is_updating := False\<rparr> = t\<lparr>sliders := sl, is_updating := False\<rparr>"
    unfolding sl(1) by simp
  have 3: "\<forall>j<min (length (criteria t)) (length (sliders t)).
              \<exists>p. py_index (map int (criteria t ! j)) (index_clicked t) = Some p \<and>
                  sl_val (sl ! j) = of_nat p"
  proof (intro allI impI)
    fix j assume j: "j < min (length (criteria t)) (length (sliders t))"
    then have "j \<in> set (zip_range t)" unfolding zip_range_def by simp
    with sl(3) obtain p where "py_index (map int (criteria t ! j)) (index_clicked t) = Some p"
      "j < length sl \<longrightarrow> sl_val (sl ! j) = of_nat p" by blast
    with j sl(2) show "\<exists>p. py_index (map int (criteria t ! j)) (index_clicked t) = Some p \<and>
                  sl_val (sl ! j) = of_nat p"
      by auto
  qed
  from 1 sl(2) 3 show ?thesis by blast
qed

lemma change_points_intensity_same:
  "index_clicked s = old \<Longrightarrow>
   change_points_intensity cb (Some old) s = restore_points_intensity cb s"
  by (simp add: change_points_intensity_def)

lemma change_points_intensity_new:
  assumes "change_points_intensity (value_updated (Suc d)) (Some old) s = Inr s'"
    and "index_clicked s \<noteq> old"
  shows "\<exists>s2 sl. change_loop old [0..<length_data s] s = Inr s2 \<and>
           s' = s2\<lparr>sliders := sl, is_updating := False\<rparr> \<and>
           length sl = length (sliders s) \<and>
           (\<forall>j<min (length (criteria s)) (length (sliders s)).
              \<exists>p. py_index (map int (criteria s ! j)) (index_clicked s) = Some p \<and>
                  sl_val (sl ! j) = of_nat p)"
proof -
  from assms obtain s2 s3 where
    s2: "change_loop old [0..<length_data s] s = Inr s2" and
    s3: "push_selection (value_updated (Suc d)) (zip_range s2) (s2\<lparr>is_updating := True\<rparr>) = Inr s3" and
    s': "s' = s3\<lparr>is_updating := False\<rparr>"
    by (auto simp: change_points_intensity_def and_then_eq_Inr)
  from change_loop_alpha [OF s2] have e: "s2 = s\<lparr>alpha := alpha s2\<rparr>" .
  have f: "sliders s2 = sliders s" "criteria s2 = criteria s" "index_clicked s2 = index_clicked s"
    by (subst e, simp)+
  from push_phase [OF s3] f s' s2 show ?thesis by auto
qed

section \<open>Frames of the handlers\<close>

lemma same_setup_refl [simp]: "same_setup s s"
  by (simp add: same_setup_def)

lemma same_setup_trans: "same_setup s t \<Longrightarrow> same_setup t u \<Longrightarrow> same_setup s u"
  by (simp add: same_setup_def)

lemma update_index_loop_frame:
  "update_index_loop ds pc s = Inr s' \<Longrightarrow> s' = s\<lparr>index_clicked := index_clicked s'\<rparr>"
  by (induction ds) (auto split: option.splits if_splits)

lemma update_index_display_picked_frame:
  "update_index_display_picked s = Inr s' \<Longrightarrow> s' = s\<lparr>index_clicked := index_clicked s'\<rparr>"
  by (auto simp: update_index_display_picked_def split: option.splits dest: update_index_loop_frame)



lemma init_axes_loop_eq:
  "init_axes_loop axs used is =
     (if \<forall>i\<in>set is. i < length axs
      then (map (\<lambda>i. if used \<le> i then Set_visible_False (axs ! i) else Set_box_aspect (axs ! i)) is,
            Inr ())
      else (map (\<lambda>i. if used \<le> i then Set_visible_False (axs ! i) else Set_box_aspect (axs ! i))
              (takeWhile (\<lambda>i. i < length axs) is),
            Inl IndexError))"
  by (induction "is") (auto simp: then_traced_def)

lemma slot_effects_split:
  "map (\<lambda>i. if g + e \<le> i then Set_visible_False (axs ! i) else Set_box_aspect (axs ! i)) [g..<c] =
   map (\<lambda>i. Set_box_aspect (axs ! i)) [g..<min c (g + e)] @
   map (\<lambda>i. Set_visible_False (axs ! i)) [g + e..<c]"
proof (cases "c \<le> g + e")
  case True
  then show ?thesis by (simp add: min_def)
next
  case False
  then have "[g..<c] = [g..<g + e] @ [g + e..<c]"
    by (metis le_add1 less_imp_le_nat linorder_not_le upt_add_eq_append le_Suc_ex)
  with False show ?thesis by (simp add: min_def)
qed

lemma init_axes_eq:
  assumes "supplied_axes chart = [] \<or> length (supplied_axes chart) = n_graphs s + extra"
  shows "init_axes b chart extra s =
     (let axs = set_figure_layout b (supplied_axes chart) (n_graphs s + extra);
          cells = fst (get_axes_shape b (n_graphs s + extra)) *
                  snd (get_axes_shape b (n_graphs s + extra))
      in if \<forall>i\<in>set [n_graphs s..<cells]. i < length axs
         then (layout_effects b chart (n_graphs s) extra, Inr (s\<lparr>axes := axs\<rparr>))
         else (fst (get_figure_and_axes chart) @ [Set_figure_layout (n_graphs s + extra)] @
               map (\<lambda>i. if n_graphs s + extra \<le> i then Set_visible_False (axs ! i)
                         else Set_box_aspect (axs ! i))
                 (takeWhile (\<lambda>i. i < length axs) [n_graphs s..<cells]),
               Inl IndexError))"
proof -
  obtain tr axs0 where g: "get_figure_and_axes chart = (tr, axs0)"
    by (cases "get_figure_and_axes chart")
  obtain r c where sh: "get_axes_shape b (n_graphs s + extra) = (r, c)"
    by (cases "get_axes_shape b (n_graphs s + extra)")
  have a0: "supplied_axes chart = axs0" using g by (simp add: supplied_axes_def)
  from assms a0 have cnt: "length axs0 = 0 \<or> length axs0 = n_graphs s + extra" by auto
  show ?thesis
    using cnt
    by (auto simp: init_axes_def g sh a0 Let_def init_axes_loop_eq layout_effects_def
        slot_effects_split then_traced_def)
qed

lemma slot_effects_no_widget:
  "list_all (\<lambda>x. \<not> is_widget_effect x)
     (map (\<lambda>i. if u \<le> i then Set_visible_False (axs ! i) else Set_box_aspect (axs ! i)) is)"
  by (induction "is") auto

lemma layout_effects_no_widget:
  "list_all (\<lambda>x. \<not> is_widget_effect x) (layout_effects b chart g e)"
  using get_figure_and_axes_no_widget [of chart]
  by (simp add: layout_effects_def Let_def list_all_iff) auto

lemma init_bad_criterion:
  assumes "as_list displays_arg \<noteq> []"
    and eq: "length (criteria_list criteria_arg) = length (as_list sliders_arg)"
    and cnt: "supplied_axes chart = [] \<or>
       length (supplied_axes chart) =
         view_axes displays_arg + length (criteria_list criteria_arg)"
    and bad: "list_ex (\<lambda>c. length c \<noteq> d_n_samples (as_list displays_arg ! 0))
       (criteria_list criteria_arg)"
  shows "(init b opacity displays_arg criteria_arg sliders_arg label_sliders chart =
            (layout_effects b chart (view_axes displays_arg) (length (criteria_list criteria_arg)),
             Inl ValueError) \<or>
          snd (init b opacity displays_arg criteria_arg sliders_arg label_sliders chart) =
            Inl IndexError) \<and>
         list_all (\<lambda>x. \<not> is_widget_effect x)
           (fst (init b opacity displays_arg criteria_arg sliders_arg label_sliders chart)) \<and>
         (layout_fits b (supplied_axes chart)
            (view_axes displays_arg + length (criteria_list criteria_arg)) \<longrightarrow>
          snd (init b opacity displays_arg criteria_arg sliders_arg label_sliders chart) =
            Inl ValueError)"
proof -
  let ?s0 = "\<lparr>displays = as_list displays_arg, point_clicked = None,
           n_graphs = view_axes displays_arg,
           length_data = d_n_samples (as_list displays_arg ! 0),
           sliders = [], criteria = [], clicked = False, index_clicked = - 1,
           tag_visible = True, tag_anchor = None, is_updating = False,
           axes = [], widget_index = None, alpha = opacity\<rparr>"
  let ?n = "length (criteria_list criteria_arg)"
  let ?g = "view_axes displays_arg"
  let ?init = "init b opacity displays_arg criteria_arg sliders_arg label_sliders chart"
  let ?axs = "set_figure_layout b (supplied_axes chart) (?g + ?n)"
  let ?cells = "fst (get_axes_shape b (?g + ?n)) * snd (get_axes_shape b (?g + ?n))"
  let ?f = "\<lambda>i. if ?g + ?n \<le> i then Set_visible_False (?axs ! i) else Set_box_aspect (?axs ! i)"
  note u = init_unfold [OF assms(1), of b opacity criteria_arg sliders_arg label_sliders chart]
  have ax: "init_axes b chart ?n ?s0 =
     (if \<forall>i\<in>set [?g..<?cells]. i < length ?axs
      then (layout_effects b chart ?g ?n, Inr (?s0\<lparr>axes := ?axs\<rparr>))
      else (fst (get_figure_and_axes chart) @ [Set_figure_layout (?g + ?n)] @
              map ?f (takeWhile (\<lambda>i. i < length ?axs) [?g..<?cells]),
            Inl IndexError))"
    using init_axes_eq [of chart ?s0 ?n b] cnt by (simp add: Let_def)
  have cr: "create_sliders (criteria_list criteria_arg) (as_list sliders_arg)
        (label_list label_sliders) (?s0\<lparr>axes := ?axs\<rparr>) = ([], Inl ValueError)"
    using bad by (intro create_sliders_bad_length) simp
  show ?thesis
  proof (cases "\<forall>i\<in>set [?g..<?cells]. i < length ?axs")
    case True
    have ax': "init_axes b chart ?n ?s0 = (layout_effects b chart ?g ?n, Inr (?s0\<lparr>axes := ?axs\<rparr>))"
      unfolding ax using True by (rule if_P)
    have i: "?init = (layout_effects b chart ?g ?n, Inl ValueError)"
      using cr by (simp add: u eq [symmetric] ax')
    show ?thesis
      unfolding i using layout_effects_no_widget [of b chart ?g ?n] by simp
  next
    case False
    have ax': "init_axes b chart ?n ?s0 =
        (fst (get_figure_and_axes chart) @ [Set_figure_layout (?g + ?n)] @
              map ?f (takeWhile (\<lambda>i. i < length ?axs) [?g..<?cells]), Inl IndexError)"
      unfolding ax using False by (rule if_not_P)
    have i: "?init = (fst (get_figure_and_axes chart) @ [Set_figure_layout (?g + ?n)] @
              map ?f (takeWhile (\<lambda>i. i < length ?axs) [?g..<?cells]), Inl IndexError)"
      by (simp add: u eq [symmetric] ax')
    have nofit: "\<not> layout_fits b (supplied_axes chart) (?g + ?n)"
      using False by (auto simp: layout_fits_def)
    have "list_all (\<lambda>x. \<not> is_widget_effect x)
        (map ?f (takeWhile (\<lambda>i. i < length ?axs) [?g..<?cells]))"
      by (rule slot_effects_no_widget)
    then show ?thesis
      unfolding i using get_figure_and_axes_no_widget [of chart] nofit by simp
  qed
qed

text \<open>
  Claim C6, as amended. With at least one view: a mismatch between the numbers of criteria
  and of widget factories, and a supplied set of axes of the wrong size, are raised with
  an empty log of effects: no figure is created, no axes laid out or hidden and no slider
  built. A criterion whose length is not \<open>length_data\<close> is raised by \<^verbatim>\<open>_create_sliders\<close>,
  which runs only once \<^verbatim>\<open>_init_axes\<close> has returned: when this \<open>ValueError\<close> is raised the
  effects so far are exactly those of the layout (the figure obtained and laid out, every
  slider slot given its box aspect, every surplus cell of the grid hidden), and no slider
  widget has been built and no slider axes labelled. The only other outcome is an
  \<open>IndexError\<close> of \<^verbatim>\<open>_init_axes\<close> itself, which needs a layout with fewer axes than
  the grid has cells, and also precedes every slider.
\<close>

theorem init_errors_and_effects:
  assumes "as_list displays_arg \<noteq> []"
  shows
    "(length (criteria_list criteria_arg) \<noteq> length (as_list sliders_arg) \<longrightarrow>
        init b opacity displays_arg criteria_arg sliders_arg label_sliders chart =
          ([], Inl ValueError)) \<and>
     (length (criteria_list criteria_arg) = length (as_list sliders_arg) \<and>
      supplied_axes chart \<noteq> [] \<and>
      length (supplied_axes chart) \<noteq> view_axes displays_arg + length (criteria_list criteria_arg) \<longrightarrow>
        init b opacity displays_arg criteria_arg sliders_arg label_sliders chart =
          ([], Inl ValueError)) \<and>
     (length (criteria_list criteria_arg) = length (as_list sliders_arg) \<and>
      (supplied_axes chart = [] \<or>
       length (supplied_axes chart) =
         view_axes displays_arg + length (criteria_list criteria_arg)) \<and>
      list_ex (\<lambda>c. length c \<noteq> d_n_samples (as_list displays_arg ! 0)) (criteria_list criteria_arg) \<longrightarrow>
        (init b opacity displays_arg criteria_arg sliders_arg label_sliders chart =
           (layout_effects b chart (view_axes displays_arg) (length (criteria_list criteria_arg)),
            Inl ValueError) \<or>
         snd (init b opacity displays_arg criteria_arg sliders_arg label_sliders chart) =
           Inl IndexError) \<and>
        list_all (\<lambda>x. \<not> is_widget_effect x)
          (fst (init b opacity displays_arg criteria_arg sliders_arg label_sliders chart)) \<and>
        (layout_fits b (supplied_axes chart)
           (view_axes displays_arg + length (criteria_list criteria_arg)) \<longrightarrow>
         snd (init b opacity displays_arg criteria_arg sliders_arg label_sliders chart) =
           Inl ValueError))"
proof -
  let ?s0 = "\<lparr>displays = as_list displays_arg, point_clicked = None,
           n_graphs = view_axes displays_arg,
           length_data = d_n_samples (as_list displays_arg ! 0),
           sliders = [], criteria = [], clicked = False, index_clicked = - 1,
           tag_visible = True, tag_anchor = None, is_updating = False,
           axes = [], widget_index = None, alpha = opacity\<rparr>"
  let ?n = "length (criteria_list criteria_arg)"
  let ?init = "init b opacity displays_arg criteria_arg sliders_arg label_sliders chart"
  note u = init_unfold [OF assms, of b opacity criteria_arg sliders_arg label_sliders chart]
  have first: "?n \<noteq> length (as_list sliders_arg) \<longrightarrow> ?init = ([], Inl ValueError)"
    by (simp add: u)
  have second: "?n = length (as_list sliders_arg) \<and> supplied_axes chart \<noteq> [] \<and>
      length (supplied_axes chart) \<noteq> view_axes displays_arg + ?n \<longrightarrow>
      ?init = ([], Inl ValueError)"
    using init_axes_bad_count [of chart ?s0 ?n b] by (auto simp: u)
  note third = init_bad_criterion [OF assms, of criteria_arg sliders_arg chart b opacity label_sliders]
  from first second third show ?thesis by blast
qed



theorem init_errors_and_effects_witness:
  "as_list (One (scenario_view\<lparr>d_n_samples := 5\<rparr>)) \<noteq> [] \<and>
   length (criteria_list (Nested [[1 :: int, 2], [3, 4]])) \<noteq> length (as_list (One Slider)) \<and>
   init scenario_backend (\<lambda>_. 1) (One (scenario_view\<lparr>d_n_samples := 5\<rparr>))
     (Nested [[1 :: int, 2], [3, 4]]) (One Slider) No_labels No_chart = ([], Inl ValueError) \<and>
   supplied_axes (Given_axes [7]) \<noteq> [] \<and>
   init scenario_backend (\<lambda>_. 1) (One (scenario_view\<lparr>d_n_samples := 5\<rparr>))
     (Nested [[1 :: int, 2]]) (One Slider) No_labels (Given_axes [7]) = ([], Inl ValueError) \<and>
   list_ex (\<lambda>c. length c \<noteq> d_n_samples (as_list (One (scenario_view\<lparr>d_n_samples := 5\<rparr>)) ! 0))
     (criteria_list (Nested [[1 :: int, 2], [3, 4]])) \<and>
   init two_row_backend (\<lambda>_. 1) (One (scenario_view\<lparr>d_n_samples := 5\<rparr>))
     (Nested [[1 :: int, 2], [3, 4]]) (Many [Slider, Slider]) No_labels No_chart =
     ([Create_figure, Set_figure_layout 3, Set_box_aspect 1, Set_box_aspect 2, Set_visible_False 3],
      Inl ValueError) \<and>
   list_all (\<lambda>x. \<not> is_widget_effect x)
     (fst (init two_row_backend (\<lambda>_. 1) (One (scenario_view\<lparr>d_n_samples := 5\<rparr>))
        (Nested [[1 :: int, 2], [3, 4]]) (Many [Slider, Slider]) No_labels No_chart))"
proof -
  let ?v = "One (scenario_view\<lparr>d_n_samples := 5\<rparr>)"
  let ?cs = "Nested [[1 :: int, 2], [3, 4]]"
  have v: "as_list ?v \<noteq> []" by simp
  have a: "length (criteria_list ?cs) \<noteq> length (as_list (One Slider))"
    by simp
  have b: "length (criteria_list (Nested [[1 :: int, 2]])) = length (as_list (One Slider)) \<and>
    supplied_axes (Given_axes [7]) \<noteq> [] \<and>
    length (supplied_axes (Given_axes [7])) \<noteq>
      view_axes ?v + length (criteria_list (Nested [[1 :: int, 2]]))"
    by (simp add: supplied_axes_def view_axes_def scenario_view_def)
  have c: "length (criteria_list ?cs) = length (as_list (Many [Slider, Slider])) \<and>
      (supplied_axes No_chart = [] \<or>
       length (supplied_axes No_chart) = view_axes ?v + length (criteria_list ?cs)) \<and>
      list_ex (\<lambda>c. length c \<noteq> d_n_samples (as_list ?v ! 0)) (criteria_list ?cs)"
    by (simp add: supplied_axes_def scenario_view_def)
  have fits: "layout_fits two_row_backend (supplied_axes No_chart)
      (view_axes ?v + length (criteria_list ?cs))"
    by (simp add: layout_fits_def two_row_backend_def view_axes_def scenario_view_def)
  have le: "layout_effects two_row_backend No_chart (view_axes ?v) (length (criteria_list ?cs)) =
      [Create_figure, Set_figure_layout 3, Set_box_aspect 1, Set_box_aspect 2, Set_visible_False 3]"
    by (simp add: layout_effects_def two_row_backend_def view_axes_def scenario_view_def
        supplied_axes_def upt_rec)
  from init_errors_and_effects [OF v] a
  have 1: "init scenario_backend (\<lambda>_. 1) ?v ?cs (One Slider) No_labels No_chart =
      ([], Inl ValueError)"
    by blast
  from init_errors_and_effects [OF v] b
  have 2: "init scenario_backend (\<lambda>_. 1) ?v (Nested [[1 :: int, 2]]) (One Slider)
      No_labels (Given_axes [7]) = ([], Inl ValueError)"
    by blast
  from init_errors_and_effects [OF v, of ?cs "Many [Slider, Slider]" two_row_backend
      "\<lambda>_. 1" No_labels No_chart] c fits
  have 3: "init two_row_backend (\<lambda>_. 1) ?v ?cs (Many [Slider, Slider]) No_labels No_chart =
      (layout_effects two_row_backend No_chart (view_axes ?v) (length (criteria_list ?cs)),
       Inl ValueError) \<and>
    list_all (\<lambda>x. \<not> is_widget_effect x)
     (fst (init two_row_backend (\<lambda>_. 1) ?v ?cs (Many [Slider, Slider]) No_labels No_chart))"
    by auto
  from v a 1 b 2 c 3 show ?thesis unfolding le by blast
qed

section \<open>The attribute \<open>widget_index\<close>\<close>












section \<open>Sliders after a change of selection\<close>


lemma change_points_intensity_synced:
  assumes "change_points_intensity (value_updated (Suc d)) (Some old) s = Inr s'"
    and "index_clicked s \<noteq> old"
  shows "sliders_synced s' \<and> index_clicked s' = index_clicked s"
proof -
  from change_points_intensity_new [OF assms] obtain s2 sl where
    s2: "change_loop old [0..<length_data s] s = Inr s2"
    and s': "s' = s2\<lparr>sliders := sl, is_updating := False\<rparr>"
    and len: "length sl = length (sliders s)"
    and pos: "\<forall>j<min (length (criteria s)) (length (sliders s)).
        \<exists>p. py_index (map int (criteria s ! j)) (index_clicked s) = Some p \<and>
            sl_val (sl ! j) = of_nat p"
    by blast
  from change_loop_alpha [OF s2] have e: "s2 = s\<lparr>alpha := alpha s2\<rparr>" .
  have f2: "criteria s2 = criteria s" "index_clicked s2 = index_clicked s"
    by (subst e, simp)+
  have f: "criteria s' = criteria s" "index_clicked s' = index_clicked s" "sliders s' = sl"
    unfolding s' using f2 by simp_all
  have "sliders_synced s'"
    by (rule sliders_syncedI) (use pos len in \<open>simp add: f\<close>)
  with f(2) show ?thesis by simp
qed











section \<open>Changing the selection\<close>

lemma sample_artists_ids:
  "art_id ` set (sample_artists s k) =
   (\<Union>i\<in>{i \<in> set [0..<length_data s]. int i = k}. row_ids (displays s) i)"
proof (cases "0 \<le> k \<and> k < int (length_data s)")
  case True
  then have "{i \<in> set [0..<length_data s]. int i = k} = {nat k}" by auto
  with True show ?thesis by (simp add: sample_artists_def row_ids_def)
next
  case False
  then have e: "{i \<in> set [0..<length_data s]. int i = k} = {}" by auto
  from False have "sample_artists s k = []" unfolding sample_artists_def by (rule if_not_P)
  then show ?thesis unfolding e by simp
qed

lemma all_artists_ids:
  assumes "rows_complete s"
  shows "art_id ` set (all_artists s) = (\<Union>i\<in>set [0..<length_data s]. row_ids (displays s) i)"
proof -
  have "set (concat (d_artists d)) = (\<Union>i\<in>set [0..<length_data s]. set (d_artists d ! i))"
    if "d \<in> set (displays s)" for d
  proof -
    from assms that have "length (d_artists d) = length_data s"
      by (simp add: rows_complete_def list_all_iff)
    then have "set (d_artists d) = (\<lambda>i. d_artists d ! i) ` set [0..<length_data s]"
      by (auto simp: in_set_conv_nth)
    then show ?thesis by simp
  qed
  then have "set (all_artists s) =
      (\<Union>d\<in>set (displays s). \<Union>i\<in>set [0..<length_data s]. set (d_artists d ! i))"
    by (simp add: all_artists_def)
  then show ?thesis by (auto simp: row_ids_def)
qed

lemma change_points_intensity_succeeds:
  assumes "rows_complete s" and "index_clicked s \<noteq> old"
    and "art_id ` set (sample_artists s (index_clicked s)) \<inter> art_id ` set (sample_artists s old) = {}"
    and "\<forall>j<min (length (criteria s)) (length (sliders s)).
           index_clicked s \<in> int ` set (criteria s ! j)"
  shows "\<exists>s'. change_points_intensity (value_updated (Suc d)) (Some old) s = Inr s'"
proof -
  let ?s2 = "paint (art_id ` set (sample_artists s (index_clicked s))) 1
               (paint (art_id ` set (sample_artists s old)) (1 / 10) s)"
  have s2: "change_loop old [0..<length_data s] s = Inr ?s2"
    unfolding sample_artists_ids
    by (rule change_loop_eq [OF rows_completeD [OF assms(1)] assms(3) [unfolded sample_artists_ids] assms(2)])
  have "\<exists>s3. push_selection (value_updated (Suc d)) (zip_range ?s2) (?s2\<lparr>is_updating := True\<rparr>) = Inr s3"
    using assms(4) by (intro push_selection_succeeds) (simp_all add: zip_range_def)
  then show ?thesis
    using assms(2) unfolding change_points_intensity_def by (auto simp: s2)
qed

lemma change_points_intensity_result:
  assumes "rows_complete s" and "index_clicked s \<noteq> old"
    and "art_id ` set (sample_artists s (index_clicked s)) \<inter> art_id ` set (sample_artists s old) = {}"
    and "change_points_intensity (value_updated (Suc d)) (Some old) s = Inr s'"
  shows "\<exists>sl. s' = (paint (art_id ` set (sample_artists s (index_clicked s))) 1
                      (paint (art_id ` set (sample_artists s old)) (1 / 10) s))
                     \<lparr>sliders := sl, is_updating := False\<rparr> \<and>
              length sl = length (sliders s) \<and>
              (\<forall>j<min (length (criteria s)) (length (sliders s)).
                 \<exists>p. py_index (map int (criteria s ! j)) (index_clicked s) = Some p \<and>
                     sl_val (sl ! j) = of_nat p)"
proof -
  let ?s2 = "paint (art_id ` set (sample_artists s (index_clicked s))) 1
               (paint (art_id ` set (sample_artists s old)) (1 / 10) s)"
  have s2: "change_loop old [0..<length_data s] s = Inr ?s2"
    unfolding sample_artists_ids
    by (rule change_loop_eq [OF rows_completeD [OF assms(1)] assms(3) [unfolded sample_artists_ids] assms(2)])
  from change_points_intensity_new [OF assms(4,2)] show ?thesis
    unfolding s2 by auto
qed


text \<open>
  Claim C5. In a state whose grids have one row per sample,
  \<^verbatim>\<open>change_points_intensity(old_index)\<close> does the following.

  \<^item> If the selected index equals \<open>old_index\<close>, it is \<^verbatim>\<open>restore_points_intensity\<close>: it
    returns, every artist has opacity 1, the selection is \<open>-1\<close>, no artist is clicked,
    and every slider is at 0.

  \<^item> Otherwise, the two samples sharing no artist: whenever it returns, the artists of the
    selected sample have opacity 1, those of sample \<open>old_index\<close> have 0.1, every other
    opacity is as before, every slider stands at the position of the selected sample,
    and nothing else has changed, the callbacks of the sliders having been stopped by
    \<open>is_updating\<close>, which is false again at the end. It returns when the selected index
    occurs in the order of every slider.
\<close>

theorem change_points_intensity_cases:
  assumes "rows_complete s"
  shows
    "(index_clicked s = old \<longrightarrow>
        change_points_intensity (value_updated (Suc d)) (Some old) s =
          restore_points_intensity (value_updated (Suc d)) s \<and>
        (\<exists>sl. change_points_intensity (value_updated (Suc d)) (Some old) s =
                Inr ((paint (art_id ` set (all_artists s)) 1 s)
                       \<lparr>point_clicked := None, index_clicked := - 1, sliders := sl,
                        is_updating := False\<rparr>) \<and>
              length sl = length (sliders s) \<and> (\<forall>j<length sl. sl_val (sl ! j) = 0))) \<and>
     (index_clicked s \<noteq> old \<and>
      art_id ` set (sample_artists s (index_clicked s)) \<inter>
        art_id ` set (sample_artists s old) = {} \<longrightarrow>
        (\<forall>s'. change_points_intensity (value_updated (Suc d)) (Some old) s = Inr s' \<longrightarrow>
           (\<exists>sl. s' = (paint (art_id ` set (sample_artists s (index_clicked s))) 1
                         (paint (art_id ` set (sample_artists s old)) (1 / 10) s))
                        \<lparr>sliders := sl, is_updating := False\<rparr> \<and>
                 length sl = length (sliders s)) \<and>
           sliders_synced s') \<and>
        ((\<forall>j<min (length (criteria s)) (length (sliders s)).
            index_clicked s \<in> int ` set (criteria s ! j)) \<longrightarrow>
         (\<exists>s'. change_points_intensity (value_updated (Suc d)) (Some old) s = Inr s')))"
proof (intro conjI impI allI)
  assume "index_clicked s = old"
  then show same: "change_points_intensity (value_updated (Suc d)) (Some old) s =
      restore_points_intensity (value_updated (Suc d)) s"
    by (rule change_points_intensity_same)
  from restore_points_intensity_eq [OF assms, of d]
  show "\<exists>sl. change_points_intensity (value_updated (Suc d)) (Some old) s =
                Inr ((paint (art_id ` set (all_artists s)) 1 s)
                       \<lparr>point_clicked := None, index_clicked := - 1, sliders := sl,
                        is_updating := False\<rparr>) \<and>
              length sl = length (sliders s) \<and> (\<forall>j<length sl. sl_val (sl ! j) = 0)"
    unfolding same all_artists_ids [OF assms] .
next
  fix s'
  assume new: "index_clicked s \<noteq> old \<and>
      art_id ` set (sample_artists s (index_clicked s)) \<inter>
        art_id ` set (sample_artists s old) = {}"
    and run: "change_points_intensity (value_updated (Suc d)) (Some old) s = Inr s'"
  from new have n: "index_clicked s \<noteq> old" and dis:
    "art_id ` set (sample_artists s (index_clicked s)) \<inter> art_id ` set (sample_artists s old) = {}"
    by simp_all
  from change_points_intensity_result [OF assms n dis run]
  show "\<exists>sl. s' = (paint (art_id ` set (sample_artists s (index_clicked s))) 1
                         (paint (art_id ` set (sample_artists s old)) (1 / 10) s))
                        \<lparr>sliders := sl, is_updating := False\<rparr> \<and>
                 length sl = length (sliders s)"
    by blast
  from change_points_intensity_synced [OF run n] show "sliders_synced s'" by simp
next
  assume new: "index_clicked s \<noteq> old \<and>
      art_id ` set (sample_artists s (index_clicked s)) \<inter>
        art_id ` set (sample_artists s old) = {}"
    and mem: "\<forall>j<min (length (criteria s)) (length (sliders s)).
            index_clicked s \<in> int ` set (criteria s ! j)"
  from new have n: "index_clicked s \<noteq> old" and dis:
    "art_id ` set (sample_artists s (index_clicked s)) \<inter> art_id ` set (sample_artists s old) = {}"
    by simp_all
  from change_points_intensity_succeeds [OF assms n dis mem]
  show "\<exists>s'. change_points_intensity (value_updated (Suc d)) (Some old) s = Inr s'" .
qed


text \<open>
  With the two sliders, sample 2 selected and every opacity at 0.5: for \<open>old_index = 2\<close>
  the restore, for \<open>old_index = 1\<close> the change.
\<close>

theorem change_points_intensity_cases_witness:
  "rows_complete (duet_state\<lparr>index_clicked := 2, alpha := (\<lambda>_. 1 / 2)\<rparr>) \<and>
   (\<exists>sl. change_points_intensity (value_updated (Suc 0)) (Some 2)
            (duet_state\<lparr>index_clicked := 2, alpha := (\<lambda>_. 1 / 2)\<rparr>) =
          Inr (duet_state\<lparr>index_clicked := - 1, alpha := (\<lambda>x. if x \<in> {0, 1, 2} then 1 else 1 / 2),
                 sliders := sl\<rparr>) \<and>
         length sl = 2 \<and> list_all (\<lambda>x. sl_val x = 0) sl) \<and>
   index_clicked (duet_state\<lparr>index_clicked := 2, alpha := (\<lambda>_. 1 / 2)\<rparr>) \<noteq> 1 \<and>
   (\<exists>s'. change_points_intensity (value_updated (Suc 0)) (Some 1)
            (duet_state\<lparr>index_clicked := 2, alpha := (\<lambda>_. 1 / 2)\<rparr>) = Inr s' \<and>
         map (alpha s') [0, 1, 2, 3] = [1 / 2, 1 / 10, 1, 1 / 2] \<and>
         map sl_val (sliders s') = [2, 0] \<and> index_clicked s' = 2 \<and> \<not> is_updating s' \<and>
         sliders_synced s')"
proof -
  let ?t = "duet_state\<lparr>index_clicked := 2, alpha := (\<lambda>_. 1 / 2)\<rparr>"
  have rows: "rows_complete ?t"
    by (simp add: rows_complete_def duet_state_def scenario_state_def)
  have all: "art_id ` set (all_artists ?t) = {0, 1, 2}"
    by (auto simp: all_artists_def duet_state_def scenario_state_def)
  have new: "art_id ` set (sample_artists ?t 2) = {2}"
    and old: "art_id ` set (sample_artists ?t 1) = {1}"
    by (simp_all add: sample_artists_def duet_state_def scenario_state_def)
  have i: "index_clicked ?t = 2" by simp
  have n: "index_clicked ?t \<noteq> 1" by simp
  have dis: "art_id ` set (sample_artists ?t (index_clicked ?t)) \<inter>
      art_id ` set (sample_artists ?t 1) = {}"
    unfolding i new old by simp
  have mem: "\<forall>j<min (length (criteria ?t)) (length (sliders ?t)).
      index_clicked ?t \<in> int ` set (criteria ?t ! j)"
    by (auto simp: duet_state_def scenario_state_def less_Suc_eq)
  note cases = change_points_intensity_cases [OF rows]
  from cases [of 2 0, THEN conjunct1, THEN mp, OF i, THEN conjunct2] obtain sl where
    p: "change_points_intensity (value_updated (Suc 0)) (Some 2) ?t =
          Inr ((paint (art_id ` set (all_artists ?t)) 1 ?t)
                 \<lparr>point_clicked := None, index_clicked := - 1, sliders := sl,
                  is_updating := False\<rparr>) \<and>
        length sl = length (sliders ?t) \<and> (\<forall>j<length sl. sl_val (sl ! j) = 0)" ..
  note r = p [THEN conjunct1] and len = p [THEN conjunct2, THEN conjunct1]
    and zero = p [THEN conjunct2, THEN conjunct2]
  have e: "(paint (art_id ` set (all_artists ?t)) 1 ?t)
             \<lparr>point_clicked := None, index_clicked := - 1, sliders := sl, is_updating := False\<rparr> =
           duet_state\<lparr>index_clicked := - 1, alpha := (\<lambda>x. if x \<in> {0, 1, 2} then 1 else 1 / 2),
             sliders := sl\<rparr>"
    unfolding all by (simp add: paint_def duet_state_def scenario_state_def cong: if_cong)
  have c1: "\<exists>sl. change_points_intensity (value_updated (Suc 0)) (Some 2) ?t =
          Inr (duet_state\<lparr>index_clicked := - 1, alpha := (\<lambda>x. if x \<in> {0, 1, 2} then 1 else 1 / 2),
                 sliders := sl\<rparr>) \<and>
         length sl = 2 \<and> list_all (\<lambda>x. sl_val x = 0) sl"
  proof (intro exI [of _ sl] conjI)
    show "change_points_intensity (value_updated (Suc 0)) (Some 2) ?t =
          Inr (duet_state\<lparr>index_clicked := - 1, alpha := (\<lambda>x. if x \<in> {0, 1, 2} then 1 else 1 / 2),
                 sliders := sl\<rparr>)"
      unfolding r e by (rule refl)
    show "length sl = 2" using len by (simp add: duet_state_def scenario_state_def)
    show "list_all (\<lambda>x. sl_val x = 0) sl" using zero by (simp add: list_all_length)
  qed
  from cases [of 1 0, THEN conjunct2, THEN mp, OF conjI [OF n dis], THEN conjunct2, THEN mp, OF mem]
  obtain s' where run: "change_points_intensity (value_updated (Suc 0)) (Some 1) ?t = Inr s'" ..
  note q = cases [of 1 0, THEN conjunct2, THEN mp, OF conjI [OF n dis], THEN conjunct1,
      THEN spec, THEN mp, OF run]
  from q [THEN conjunct1] obtain sl' where
    p': "s' = (paint (art_id ` set (sample_artists ?t (index_clicked ?t))) 1
                (paint (art_id ` set (sample_artists ?t 1)) (1 / 10) ?t))
               \<lparr>sliders := sl', is_updating := False\<rparr> \<and>
         length sl' = length (sliders ?t)" ..
  note s' = p' [THEN conjunct1] and synced = q [THEN conjunct2]
  have a: "map (alpha s') [0, 1, 2, 3] = [1 / 2, 1 / 10, 1, 1 / 2]"
    unfolding s' i new old by simp
  have f: "index_clicked s' = 2" "\<not> is_updating s'"
    unfolding s' by simp_all
  have "map_sum id (\<lambda>s. map sl_val (sliders s))
      (change_points_intensity (value_updated (Suc 0)) (Some 1) ?t) = Inr [2, 0]"
    by (simp add: handler_defs duet_state_def scenario_state_def upt_rec)
  then have v: "map sl_val (sliders s') = [2, 0]" unfolding run by simp
  have c2: "\<exists>s'. change_points_intensity (value_updated (Suc 0)) (Some 1) ?t = Inr s' \<and>
         map (alpha s') [0, 1, 2, 3] = [1 / 2, 1 / 10, 1, 1 / 2] \<and>
         map sl_val (sliders s') = [2, 0] \<and> index_clicked s' = 2 \<and> \<not> is_updating s' \<and>
         sliders_synced s'"
    using run a v f synced by (intro exI [of _ s'] conjI)
  from rows c1 n c2 show ?thesis by (intro conjI)
qed

section \<open>Picking the same artist twice\<close>

lemma where_row_Some:
  "i < length rows \<Longrightarrow> a \<in> set (rows ! i) \<Longrightarrow> \<exists>j<length rows. where_row rows a = Some j"
proof (induction rows arbitrary: i)
  case Nil
  then show ?case by simp
next
  case (Cons row rows)
  show ?case
  proof (cases "a \<in> set row")
    case True
    then show ?thesis by simp
  next
    case False
    with Cons.prems obtain k where k: "i = Suc k" by (cases i) auto
    with Cons.prems have "k < length rows" "a \<in> set (rows ! k)" by simp_all
    from Cons.IH [OF this] obtain j where "j < length rows" "where_row rows a = Some j" by blast
    with False show ?thesis by simp
  qed
qed

lemma update_index_loop_succeeds:
  assumes "list_all (\<lambda>d. list_all (\<lambda>row. map art_axes row = d_axes d) (d_artists d)) ds"
    and "distinct (concat (map d_axes ds))"
    and "d0 \<in> set ds" and "i < length (d_artists d0)" and "a \<in> set (d_artists d0 ! i)"
  shows "\<exists>j<length (d_artists d0). update_index_loop ds a s = Inr (s\<lparr>index_clicked := int j\<rparr>)"
  using assms(1-3)
proof (induction ds)
  case Nil
  then show ?case by simp
next
  case (Cons d ds)
  have d0: "list_all (\<lambda>row. map art_axes row = d_axes d0) (d_artists d0)"
    using Cons.prems(1,3) by (auto simp: list_all_iff)
  have row: "map art_axes (d_artists d0 ! i) = d_axes d0"
    using d0 assms(4) by (simp add: list_all_length)
  from assms(5) have "art_axes a \<in> set (map art_axes (d_artists d0 ! i))" by simp
  then have ax: "art_axes a \<in> set (d_axes d0)" unfolding row .
  show ?case
  proof (cases "py_index (d_axes d) (art_axes a)")
    case None
    with py_index_Some [of "art_axes a" "d_axes d"] have "art_axes a \<notin> set (d_axes d)" by auto
    with ax have "d \<noteq> d0" by auto
    with Cons.prems(3) have in_tl: "d0 \<in> set ds" by simp
    from Cons.prems(1,2) have "list_all (\<lambda>d. list_all (\<lambda>row. map art_axes row = d_axes d) (d_artists d)) ds"
      "distinct (concat (map d_axes ds))" by simp_all
    from Cons.IH [OF this in_tl] None show ?thesis by simp
  next
    case (Some c)
    from py_index_SomeD [OF Some] have c: "c < length (d_axes d)" "d_axes d ! c = art_axes a"
      by simp_all
    then have here: "art_axes a \<in> set (d_axes d)" by (auto simp: in_set_conv_nth)
    have same: "d = d0"
    proof (rule ccontr)
      assume "d \<noteq> d0"
      with Cons.prems(3) have "d0 \<in> set ds" by simp
      with ax have "art_axes a \<in> set (concat (map d_axes ds))" by auto
      with here Cons.prems(2) show False by auto
    qed
    have dist: "distinct (d_axes d0)" using Cons.prems(2) same by simp
    show ?thesis
    proof (cases "length (d_axes d0) = 1")
      case True
      from where_row_Some [OF assms(4,5)] obtain j where
        j: "j < length (d_artists d0)" "where_row (d_artists d0) a = Some j" by blast
      from j(2) Some True same have "update_index_loop (d # ds) a s = Inr (s\<lparr>index_clicked := int j\<rparr>)"
        by simp
      with j(1) show ?thesis by blast
    next
      case False
      have cols: "list_all (\<lambda>row. c < length row) (d_artists d0)"
      proof -
        have "c < length row" if "row \<in> set (d_artists d0)" for row
        proof -
          from d0 that have "map art_axes row = d_axes d0" by (simp add: list_all_iff)
          then have "length row = length (d_axes d0)" by (metis length_map)
          with c(1) same show ?thesis by simp
        qed
        then show ?thesis by (simp add: list_all_iff)
      qed
      then have col: "column c (d_artists d0) = Some (map (\<lambda>row. row ! c) (d_artists d0))"
        by (simp add: column_def)
      from assms(5) obtain c' where c': "c' < length (d_artists d0 ! i)" "d_artists d0 ! i ! c' = a"
        by (auto simp: in_set_conv_nth)
      from row have len: "length (d_artists d0 ! i) = length (d_axes d0)" by (metis length_map)
      from row c' have "d_axes d0 ! c' = art_axes a" by (metis nth_map)
      with c same have "d_axes d0 ! c' = d_axes d0 ! c" by simp
      moreover from c'(1) len have "c' < length (d_axes d0)" by simp
      moreover from c(1) same have "c < length (d_axes d0)" by simp
      ultimately have "c' = c" using dist by (simp add: nth_eq_iff_index_eq)
      with c'(2) assms(4) have "a \<in> set (map (\<lambda>row. row ! c) (d_artists d0))"
        by (auto simp: in_set_conv_nth intro!: exI [of _ i])
      from py_index_Some [OF this] obtain j where
        j: "py_index (map (\<lambda>row. row ! c) (d_artists d0)) a = Some j" "j < length (d_artists d0)"
        by auto
      from j(1) Some False same col
      have "update_index_loop (d # ds) a s = Inr (s\<lparr>index_clicked := int j\<rparr>)"
        by simp
      with j(2) show ?thesis by blast
    qed
  qed
qed


lemma pick_first_succeeds:
  assumes "rows_complete s" and "columns_match s" and "axes_distinct s" and "orders_complete s"
    and "point_clicked s = None" and "\<not> clicked s"
    and "d0 \<in> set (displays s)" and "i < length_data s" and "a \<in> set (d_artists d0 ! i)"
  shows "\<exists>s1. pick (value_updated (Suc d)) a s = Inr s1"
proof -
  let ?t = "s\<lparr>point_clicked := Some a\<rparr>"
  from assms(1,7) have len: "length (d_artists d0) = length_data s"
    by (simp add: rows_complete_def list_all_iff)
  from assms(2) have cm: "list_all (\<lambda>d. list_all (\<lambda>row. map art_axes row = d_axes d) (d_artists d))
      (displays s)" by (simp add: columns_match_def)
  from assms(3) have ad: "distinct (concat (map d_axes (displays s)))"
    by (simp add: axes_distinct_def)
  from assms(8) len have i: "i < length (d_artists d0)" by simp
  from update_index_loop_succeeds [OF cm ad assms(7) i assms(9), of ?t] len obtain j where
    j: "j < length_data s" and
    u: "update_index_loop (displays s) a ?t = Inr (?t\<lparr>index_clicked := int j\<rparr>)"
    by auto
  let ?u = "?t\<lparr>index_clicked := int j\<rparr>"
  have upd: "update_index_display_picked ?t = Inr ?u"
    using u by (simp add: update_index_display_picked_def)
  have rows: "rows_complete ?u" using assms(1) by (simp add: rows_complete_def)
  have mem: "\<forall>k<min (length (criteria ?u)) (length (sliders ?u)).
      index_clicked ?u \<in> int ` set (criteria ?u ! k)"
  proof (intro allI impI)
    fix k assume "k < min (length (criteria ?u)) (length (sliders ?u))"
    then have "k < length (criteria s)" by simp
    with assms(4) have "list_all (\<lambda>i. i \<in> set (criteria s ! k)) [0..<length_data s]"
      by (simp add: orders_complete_def list_all_length)
    with j have "j \<in> set (criteria s ! k)" by (simp add: list_all_iff)
    then show "index_clicked ?u \<in> int ` set (criteria ?u ! k)" by simp
  qed
  from reduce_points_intensity_succeeds [OF rows mem, of d] obtain s1 where
    "reduce_points_intensity (value_updated (Suc d)) ?u = Inr s1" by blast
  with assms(5,6) upd have "pick (value_updated (Suc d)) a s = Inr s1"
    by (simp add: pick_def)
  then show ?thesis by blast
qed

lemma pick_again_restores:
  assumes "rows_complete s" and "point_clicked s = None" and "\<not> clicked s"
    and "pick (value_updated (Suc d)) a s = Inr s1"
  shows "\<exists>s2. pick (value_updated (Suc d)) a s1 = Inr s2 \<and>
           list_all (\<lambda>x. alpha s2 (art_id x) = 1) (all_artists s) \<and>
           index_clicked s2 = - 1 \<and> point_clicked s2 = None \<and> \<not> clicked s2 \<and>
           list_all (\<lambda>sl. sl_val sl = 0) (sliders s2) \<and> \<not> is_updating s2 \<and> same_setup s s2"
proof -
  let ?t = "s\<lparr>point_clicked := Some a\<rparr>"
  from assms(2,3,4) obtain u where
    u: "update_index_display_picked ?t = Inr u" and
    r: "reduce_points_intensity (value_updated (Suc d)) u = Inr s1"
    by (auto simp: pick_def and_then_eq_Inr)
  from update_index_display_picked_frame [OF u] obtain x where
    ux: "u = ?t\<lparr>index_clicked := x\<rparr>" by blast
  from reduce_points_intensity_frame [OF r] have
    f: "same_setup u s1" "point_clicked s1 = point_clicked u" "clicked s1 = clicked u"
    by simp_all
  have su: "same_setup s u" unfolding ux by (simp add: same_setup_def)
  from same_setup_trans [OF su f(1)] have s1: "same_setup s s1" .
  have pc: "point_clicked s1 = Some a" "\<not> clicked s1"
    using f(2,3) assms(3) unfolding ux by simp_all
  have rows: "rows_complete s1"
    using assms(1) s1 by (simp add: rows_complete_def same_setup_def)
  have arts: "all_artists s1 = all_artists s"
    using s1 by (simp add: all_artists_def same_setup_def)
  have again: "pick (value_updated (Suc d)) a s1 = restore_points_intensity (value_updated (Suc d)) s1"
    using pc by (simp add: pick_def)
  from restore_points_intensity_eq [OF rows, of d] obtain sl where
    res: "restore_points_intensity (value_updated (Suc d)) s1 =
            Inr ((paint (art_id ` set (all_artists s)) 1 s1)
                   \<lparr>point_clicked := None, index_clicked := - 1, sliders := sl,
                    is_updating := False\<rparr>)"
    and len: "length sl = length (sliders s1)" and zero: "\<forall>j<length sl. sl_val (sl ! j) = 0"
    unfolding all_artists_ids [OF rows, symmetric] arts by blast
  let ?s2 = "(paint (art_id ` set (all_artists s)) 1 s1)
               \<lparr>point_clicked := None, index_clicked := - 1, sliders := sl, is_updating := False\<rparr>"
  have "pick (value_updated (Suc d)) a s1 = Inr ?s2" unfolding again res ..
  moreover have "list_all (\<lambda>x. alpha ?s2 (art_id x) = 1) (all_artists s)"
    by (simp add: list_all_iff)
  moreover have "list_all (\<lambda>sl. sl_val sl = 0) (sliders ?s2)"
    using zero by (simp add: list_all_length)
  moreover have "same_setup s ?s2"
    using s1 len by (simp add: same_setup_def)
  moreover have "index_clicked ?s2 = - 1" "point_clicked ?s2 = None" "\<not> clicked ?s2"
    "\<not> is_updating ?s2"
    using pc(2) by simp_all
  ultimately show ?thesis by (intro exI [of _ ?s2] conjI)
qed

text \<open>
  Claim C4. In a plotted state with nothing selected (\<open>point_clicked\<close> none, \<open>clicked\<close>
  false): when the pick of an artist returns, the pick of the same artist again returns
  too, and then every artist of every view has opacity 1, the selection index is \<open>-1\<close>,
  no artist is clicked, every slider is at 0, and the views, axes and orders are as
  before. The first pick does return for an artist \<open>a\<close> of any sample \<open>i\<close> below
  \<open>length_data\<close> in any view, when every row of a grid has one artist per axes of its
  view, no axes belongs to two views, and every order holds every sample index.
\<close>

theorem pick_twice_restores:
  assumes "rows_complete s" and "point_clicked s = None" and "\<not> clicked s"
  shows
    "(\<forall>s1. pick (value_updated (Suc d)) a s = Inr s1 \<longrightarrow>
        (\<exists>s2. pick (value_updated (Suc d)) a s1 = Inr s2 \<and>
           list_all (\<lambda>x. alpha s2 (art_id x) = 1) (all_artists s) \<and>
           index_clicked s2 = - 1 \<and> point_clicked s2 = None \<and> \<not> clicked s2 \<and>
           list_all (\<lambda>sl. sl_val sl = 0) (sliders s2) \<and> \<not> is_updating s2 \<and>
           same_setup s s2)) \<and>
     (columns_match s \<and> axes_distinct s \<and> orders_complete s \<and>
      d0 \<in> set (displays s) \<and> i < length_data s \<and> a \<in> set (d_artists d0 ! i) \<longrightarrow>
        (\<exists>s1. pick (value_updated (Suc d)) a s = Inr s1))"
proof (intro conjI allI impI)
  fix s1 assume "pick (value_updated (Suc d)) a s = Inr s1"
  from pick_again_restores [OF assms this]
  show "\<exists>s2. pick (value_updated (Suc d)) a s1 = Inr s2 \<and>
           list_all (\<lambda>x. alpha s2 (art_id x) = 1) (all_artists s) \<and>
           index_clicked s2 = - 1 \<and> point_clicked s2 = None \<and> \<not> clicked s2 \<and>
           list_all (\<lambda>sl. sl_val sl = 0) (sliders s2) \<and> \<not> is_updating s2 \<and>
           same_setup s s2" .
next
  assume wf: "columns_match s \<and> axes_distinct s \<and> orders_complete s \<and>
      d0 \<in> set (displays s) \<and> i < length_data s \<and> a \<in> set (d_artists d0 ! i)"
  then have "columns_match s" "axes_distinct s" "orders_complete s"
    "d0 \<in> set (displays s)" "i < length_data s" "a \<in> set (d_artists d0 ! i)" by simp_all
  from pick_first_succeeds [OF assms(1) this(1-3) assms(2,3) this(4-6)]
  show "\<exists>s1. pick (value_updated (Suc d)) a s = Inr s1" .
qed


text \<open>
  With the two sliders: the artist of sample 1 is picked twice. After the first pick the
  samples 0 and 2 are dimmed and the sliders stand at 0 and 1.
\<close>

theorem pick_twice_restores_witness:
  "rows_complete duet_state \<and> point_clicked duet_state = None \<and> \<not> clicked duet_state \<and>
   columns_match duet_state \<and> axes_distinct duet_state \<and> orders_complete duet_state \<and>
   (\<exists>s1 s2. pick (value_updated (Suc 0)) \<lparr>art_id = 1, art_axes = 0, art_is_path = True\<rparr>
               duet_state = Inr s1 \<and>
            map (alpha s1) [0, 1, 2] = [1 / 10, 1, 1 / 10] \<and>
            map sl_val (sliders s1) = [0, 1] \<and>
            pick (value_updated (Suc 0)) \<lparr>art_id = 1, art_axes = 0, art_is_path = True\<rparr> s1 =
              Inr s2 \<and>
            map (alpha s2) [0, 1, 2] = [1, 1, 1] \<and> map sl_val (sliders s2) = [0, 0] \<and>
            index_clicked s2 = - 1 \<and> point_clicked s2 = None \<and> \<not> clicked s2)"
proof -
  let ?a = "\<lparr>art_id = 1, art_axes = 0, art_is_path = True\<rparr>"
  let ?d = "\<lparr>d_axes = [0],
          d_artists = [[\<lparr>art_id = 0, art_axes = 0, art_is_path = True\<rparr>],
                       [\<lparr>art_id = 1, art_axes = 0, art_is_path = True\<rparr>],
                       [\<lparr>art_id = 2, art_axes = 0, art_is_path = True\<rparr>]],
          d_n_samples = 3\<rparr>"
  have rows: "rows_complete duet_state"
    by (simp add: rows_complete_def duet_state_def scenario_state_def)
  have none: "point_clicked duet_state = None" and nc: "\<not> clicked duet_state"
    by (simp_all add: duet_state_def scenario_state_def)
  have cm: "columns_match duet_state"
    by (simp add: columns_match_def duet_state_def scenario_state_def)
  have ad: "axes_distinct duet_state"
    by (simp add: axes_distinct_def duet_state_def scenario_state_def)
  have oc: "orders_complete duet_state"
    by (simp add: orders_complete_def duet_state_def scenario_state_def upt_rec)
  have d: "?d \<in> set (displays duet_state)" and i: "1 < length_data duet_state"
    and a: "?a \<in> set (d_artists ?d ! 1)"
    by (simp_all add: duet_state_def scenario_state_def)
  note twice = pick_twice_restores [OF rows none nc, of 0 ?a]
  from twice [of ?d 1, THEN conjunct2, THEN mp,
      OF conjI [OF cm conjI [OF ad conjI [OF oc conjI [OF d conjI [OF i a]]]]]]
  obtain s1 where s1: "pick (value_updated (Suc 0)) ?a duet_state = Inr s1" ..
  from twice [THEN conjunct1, THEN spec, THEN mp, OF s1] obtain s2 where
    p: "pick (value_updated (Suc 0)) ?a s1 = Inr s2 \<and>
        list_all (\<lambda>x. alpha s2 (art_id x) = 1) (all_artists duet_state) \<and>
        index_clicked s2 = - 1 \<and> point_clicked s2 = None \<and> \<not> clicked s2 \<and>
        list_all (\<lambda>sl. sl_val sl = 0) (sliders s2) \<and> \<not> is_updating s2 \<and>
        same_setup duet_state s2" ..
  have "map_sum id (\<lambda>s. (map (alpha s) [0, 1, 2], map sl_val (sliders s)))
      (pick (value_updated (Suc 0)) ?a duet_state) = Inr ([1 / 10, 1, 1 / 10], [0, 1])"
    by (simp add: handler_defs pick_def column_def update_index_display_picked_def
        duet_state_def scenario_state_def upt_rec)
  then have v1: "map (alpha s1) [0, 1, 2] = [1 / 10, 1, 1 / 10]" "map sl_val (sliders s1) = [0, 1]"
    unfolding s1 by simp_all
  from p have "list_all (\<lambda>x. alpha s2 (art_id x) = 1) (all_artists duet_state)" by simp
  then have a2: "map (alpha s2) [0, 1, 2] = [1, 1, 1]"
    by (simp add: all_artists_def duet_state_def scenario_state_def)
  from p have "length (sliders s2) = 2" "list_all (\<lambda>sl. sl_val sl = 0) (sliders s2)"
    by (simp_all add: same_setup_def duet_state_def scenario_state_def)
  then have v2: "map sl_val (sliders s2) = [0, 0]"
    by (cases "sliders s2"; cases "tl (sliders s2)") auto
  from p have r: "pick (value_updated (Suc 0)) ?a s1 = Inr s2" "index_clicked s2 = - 1"
    "point_clicked s2 = None" "\<not> clicked s2" by simp_all
  have "\<exists>s1 s2. pick (value_updated (Suc 0)) ?a duet_state = Inr s1 \<and>
            map (alpha s1) [0, 1, 2] = [1 / 10, 1, 1 / 10] \<and>
            map sl_val (sliders s1) = [0, 1] \<and>
            pick (value_updated (Suc 0)) ?a s1 = Inr s2 \<and>
            map (alpha s2) [0, 1, 2] = [1, 1, 1] \<and> map sl_val (sliders s2) = [0, 0] \<and>
            index_clicked s2 = - 1 \<and> point_clicked s2 = None \<and> \<not> clicked s2"
    using s1 v1 r a2 v2 by (intro exI [of _ s1] exI [of _ s2] conjI)
  with rows none nc cm ad oc show ?thesis by (intro conjI)
qed

end
